theory Spec2Isabelle
  imports Complex_Main "HOL-Library.Sublist" "HOL-Library.AList"
begin

text \<open>
  The alert decision engine of finance_notifier: the direction classifier and the
  corridor state machine of \<^verbatim>\<open>run_once\<close> (core.py) and \<^verbatim>\<open>run_agent_once\<close>
  (stock_agent.py), the composer's send decision, the market-hours check, the state
  file (state.py), the URL resolver (news.py) and the headline block (core.py). The
  definitions come first, file by file; the lemmas and theorems follow.
\<close>

section \<open>Python values shared by the modules\<close>

text \<open>
  Every \<^verbatim>\<open>raise\<close> of the source and every exception of a library call is a value:
  a computation that may raise has the type \<open>exn + 'a\<close>, with \<open>Inl\<close> for the exception.
\<close>

datatype exn = ValueError | RuntimeError | AttributeError | OSError | RequestException

text \<open>
  What \<^verbatim>\<open>json.loads\<close> returns: \<^verbatim>\<open>None\<close>, a bool, an int, a float, a str, a list
  or a dict with string keys (in insertion order).
\<close>

datatype json =
    JNull
  | JBool bool
  | JInt int
  | JFloat real
  | JStr string
  | JArr "json list"
  | JObj "(string \<times> json) list"

text \<open>Python's truth value of such an object (\<^verbatim>\<open>bool(x)\<close>, \<^verbatim>\<open>x or y\<close>, \<^verbatim>\<open>if x\<close>).\<close>

fun truthy :: "json \<Rightarrow> bool" where
  "truthy JNull = False"
| "truthy (JBool b) = b"
| "truthy (JInt n) = (n \<noteq> 0)"
| "truthy (JFloat r) = (r \<noteq> 0)"
| "truthy (JStr s) = (s \<noteq> [])"
| "truthy (JArr xs) = (xs \<noteq> [])"
| "truthy (JObj kvs) = (kvs \<noteq> [])"

text \<open>
  Strings are byte lists; the non-ASCII characters of the source's literals are their
  UTF-8 bytes. \<^verbatim>\<open>x in s\<close> on strings, \<^verbatim>\<open>s.lstrip("/")\<close>,
  \<^verbatim>\<open>s.replace(old, new)\<close> and \<^verbatim>\<open>"\n".join(lines)\<close> look for ASCII bytes only
  and are the same on the bytes as on the characters.

  \<^verbatim>\<open>s.strip()\<close> is not: it removes from both ends the characters for which
  \<^verbatim>\<open>str.isspace\<close> holds, which are the white space of the interpreter's Unicode
  tables (U+0085, U+00A0, U+2003 and more besides the ASCII ones). It is a library
  function wherever the source calls it: the field \<open>py_strip\<close> of the collaborators of
  a run and the field \<open>str_strip\<close> of the library of the headline block, below.
  \<open>ascii_strip\<close> is what it does on a string of ASCII characters; the examples use it.
\<close>

fun contains :: "string \<Rightarrow> string \<Rightarrow> bool" where
  "contains needle [] = (needle = [])"
| "contains needle (c # cs) = (prefix needle (c # cs) \<or> contains needle cs)"

definition is_space :: "char \<Rightarrow> bool" where
  "is_space c = (c \<in> {CHR 0x09, CHR 0x0A, CHR 0x0B, CHR 0x0C, CHR 0x0D,
                        CHR 0x1C, CHR 0x1D, CHR 0x1E, CHR 0x1F, CHR '' ''})"

definition ascii_strip :: "string \<Rightarrow> string" where
  "ascii_strip s = rev (dropWhile is_space (rev (dropWhile is_space s)))"

definition lstrip_slash :: "string \<Rightarrow> string" where
  "lstrip_slash s = dropWhile (\<lambda>c. c = CHR ''/'') s"

function replace :: "string \<Rightarrow> string \<Rightarrow> string \<Rightarrow> string" where
  "replace old new [] = []"
| "replace old new (c # cs) =
     (if old \<noteq> [] \<and> prefix old (c # cs)
      then new @ replace old new (drop (length old) (c # cs))
      else c # replace old new cs)"
  by pat_completeness auto
termination
  by (relation "measure (\<lambda>(old, new, s). length s)") auto

definition newline :: string where
  "newline = [CHR 0x0A]"

fun join_lines :: "string list \<Rightarrow> string" where
  "join_lines [] = []"
| "join_lines [l] = l"
| "join_lines (l # ls) = l @ newline @ join_lines ls"

text \<open>\<^verbatim>\<open>d.get(key) or default\<close> on an optional string, and \<^verbatim>\<open>d.get(key, default)\<close>.\<close>

definition or_else :: "string option \<Rightarrow> string \<Rightarrow> string" where
  "or_else v d = (case v of None \<Rightarrow> d | Some s \<Rightarrow> if s = [] then d else s)"

definition get_default :: "'a option \<Rightarrow> 'a \<Rightarrow> 'a" where
  "get_default v d = (case v of None \<Rightarrow> d | Some x \<Rightarrow> x)"

section \<open>Direction classifier\<close>

text \<open>
  The classification expression of \<^verbatim>\<open>run_once\<close> (core.py, line 199) and of
  \<^verbatim>\<open>run_agent_once\<close> (stock_agent.py, line 181):
  \<^verbatim>\<open>"up" if pct >= threshold_pct else "down" if pct <= -threshold_pct else "none"\<close>.
  Both files hold the same expression. Prices and percentages are Python floats; they
  are modelled by the real numbers they denote (comparison and negation of finite
  floats are exact; rounding inside arithmetic is not modelled).
\<close>

definition classify :: "real \<Rightarrow> real \<Rightarrow> string" where
  "classify pct threshold_pct =
     (if pct \<ge> threshold_pct then ''up''
      else if pct \<le> - threshold_pct then ''down''
      else ''none'')"

text \<open>\<^verbatim>\<open>_pct_change\<close> (core.py) and \<^verbatim>\<open>pct_change\<close> (stock_agent.py), the same body.\<close>

definition pct_change :: "real \<Rightarrow> real \<Rightarrow> real" where
  "pct_change open_price last_price =
     (if open_price = 0 then 0 else (last_price - open_price) / open_price * 100)"

section \<open>state.py: the alert state file\<close>

text \<open>
  The state is a Python dict from ticker to the stored value, kept as an association
  list in insertion order; \<^verbatim>\<open>state[tk] = v\<close> is \<open>AList.update tk v\<close> and
  \<^verbatim>\<open>state.get(tk, "none")\<close> is \<open>state_get\<close>.

  The file is modelled by what the calls on its path give: it is missing
  (\<^verbatim>\<open>path.exists()\<close> is false); it cannot be probed (\<^verbatim>\<open>path.exists()\<close> raises
  OSError: up to Python 3.11 it lets every error of \<^verbatim>\<open>stat\<close> out but the few it takes
  for absence, so it raises on a name that is too long and on a directory that may not
  be searched); \<^verbatim>\<open>read_text\<close> raises; its text is not JSON (\<^verbatim>\<open>json.loads\<close>
  raises); or its text is the JSON document \<open>d\<close>. \<^verbatim>\<open>json.dumps\<close> followed by
  \<^verbatim>\<open>json.loads\<close> gives the dict back, so a saved state \<open>m\<close> is the file
  \<open>Doc (JObj m)\<close>.
\<close>

type_synonym state = "(string \<times> json) list"

datatype sfile = Missing | Inaccessible | Unreadable | Garbled | Doc json

definition path_exists :: "sfile \<Rightarrow> exn + bool" where
  "path_exists f =
     (case f of
        Missing \<Rightarrow> Inr False
      | Inaccessible \<Rightarrow> Inl OSError
      | _ \<Rightarrow> Inr True)"

definition read_and_loads :: "sfile \<Rightarrow> exn + json" where
  "read_and_loads f =
     (case f of
        Missing \<Rightarrow> Inl OSError
      | Inaccessible \<Rightarrow> Inl OSError
      | Unreadable \<Rightarrow> Inl OSError
      | Garbled \<Rightarrow> Inl ValueError
      | Doc d \<Rightarrow> Inr d)"

text \<open>
  \<^verbatim>\<open>load_state\<close>. The test \<^verbatim>\<open>path.exists()\<close> stands before the \<^verbatim>\<open>try\<close>: its
  exception leaves the function. What \<^verbatim>\<open>read_text\<close> and \<^verbatim>\<open>json.loads\<close> raise is
  caught.
\<close>

definition load_state :: "sfile \<Rightarrow> exn + state" where
  "load_state f =
     (case path_exists f of
        Inl x \<Rightarrow> Inl x
      | Inr present \<Rightarrow>
          if present then
            (case read_and_loads f of
               Inl e \<Rightarrow> Inr []
             | Inr data \<Rightarrow> (case data of JObj m \<Rightarrow> Inr m | _ \<Rightarrow> Inr []))
          else Inr [])"

text \<open>
  \<^verbatim>\<open>save_state\<close>: \<^verbatim>\<open>path.write_text(json.dumps(state, ...))\<close>, with nothing
  caught. \<^verbatim>\<open>write_text\<close> opens the file for writing, which empties it, writes the
  text and closes the file. It returns (\<open>Written\<close>), or it raises \<open>x\<close> and leaves
  the file as it was when the open itself raised (\<open>Failed x None\<close>), or leaves
  behind what the failed write made of the emptied file (\<open>Failed x (Some g)\<close>): the
  empty text when the encoding raised, a text cut short when the disk ran full, both
  of them \<open>Garbled\<close>. The result is the file afterwards and the exception, if any.
\<close>

datatype write_result = Written | Failed exn "sfile option"

definition save_state ::
  "(state \<Rightarrow> write_result) \<Rightarrow> sfile \<Rightarrow> state \<Rightarrow> sfile \<times> exn option" where
  "save_state write_text f m =
     (case write_text m of
        Written \<Rightarrow> (Doc (JObj m), None)
      | Failed x left \<Rightarrow> ((case left of None \<Rightarrow> f | Some g \<Rightarrow> g), Some x))"

definition state_get :: "state \<Rightarrow> string \<Rightarrow> json" where
  "state_get m tk = (case map_of m tk of None \<Rightarrow> JStr ''none'' | Some v \<Rightarrow> v)"

section \<open>Market hours\<close>

text \<open>
  The wall clock \<^verbatim>\<open>now_tz(tz)\<close> gives: \<open>weekday\<close> is Python's \<^verbatim>\<open>n.weekday()\<close>
  (Monday is 0). \<^verbatim>\<open>n.replace(hour=h, minute=m, second=0, microsecond=0)\<close> raises
  ValueError outside 0..23 and 0..59. The three datetimes compared share their date and
  zone, so \<^verbatim>\<open><=\<close> compares (hour, minute, second, microsecond) lexicographically.
\<close>

record datetime =
  weekday :: nat
  hour :: nat
  minute :: nat
  second :: nat
  microsecond :: nat

definition replace_hm :: "datetime \<Rightarrow> int \<Rightarrow> int \<Rightarrow> exn + datetime" where
  "replace_hm n h m =
     (if 0 \<le> h \<and> h \<le> 23 \<and> 0 \<le> m \<and> m \<le> 59
      then Inr (n\<lparr>hour := nat h, minute := nat m, second := 0, microsecond := 0\<rparr>)
      else Inl ValueError)"

definition dt_le :: "datetime \<Rightarrow> datetime \<Rightarrow> bool" where
  "dt_le a b =
     (hour a < hour b \<or> (hour a = hour b \<and>
       (minute a < minute b \<or> (minute a = minute b \<and>
         (second a < second b \<or> (second a = second b \<and>
           microsecond a \<le> microsecond b))))))"

text \<open>
  The configuration dict: a key that is absent is \<open>None\<close>. Schema A has
  timezone/open/close/active_days/pause_on_closed, schema B has
  enabled/tz/start_hour/end_hour/days_mon_to_fri_only.
\<close>

record mh_cfg =
  timezone :: "string option"
  open_hhmm :: "string option"
  close_hhmm :: "string option"
  active_days :: "int list option"
  pause_on_closed :: "bool option"
  enabled :: "bool option"
  tz :: "string option"
  start_hour :: "int option"
  end_hour :: "int option"
  days_mon_to_fri_only :: "bool option"

fun split_colon :: "string \<Rightarrow> string list" where
  "split_colon [] = [[]]"
| "split_colon (c # cs) =
     (if c = CHR '':'' then [] # split_colon cs
      else (case split_colon cs of [] \<Rightarrow> [[c]] | p # ps \<Rightarrow> (c # p) # ps))"

text \<open>
  \<^verbatim>\<open>hh, mm = map(int, s.split(":"))\<close>: ValueError unless there are two parts and
  \<^verbatim>\<open>int\<close> accepts both. Python's \<^verbatim>\<open>int\<close> on a string is the parameter \<open>py_int\<close>
  (\<open>None\<close> where it raises).
\<close>

definition parse_hhmm :: "(string \<Rightarrow> int option) \<Rightarrow> string \<Rightarrow> exn + (int \<times> int)" where
  "parse_hhmm py_int s =
     (case split_colon s of
        [a, b] \<Rightarrow>
          (case py_int a of
             None \<Rightarrow> Inl ValueError
           | Some h \<Rightarrow> (case py_int b of None \<Rightarrow> Inl ValueError | Some m \<Rightarrow> Inr (h, m)))
      | _ \<Rightarrow> Inl ValueError)"

definition in_window :: "datetime \<Rightarrow> int \<times> int \<Rightarrow> int \<times> int \<Rightarrow> exn + bool" where
  "in_window n opn cls =
     (case replace_hm n (fst opn) (snd opn) of
        Inl e \<Rightarrow> Inl e
      | Inr start \<Rightarrow>
          (case replace_hm n (fst cls) (snd cls) of
             Inl e \<Rightarrow> Inl e
           | Inr stop \<Rightarrow> Inr (dt_le start n \<and> dt_le n stop)))"

text \<open>\<^verbatim>\<open>is_market_hours\<close> of core.py, both schemas.\<close>

definition is_market_hours ::
  "(string \<Rightarrow> int option) \<Rightarrow> (string \<Rightarrow> exn + datetime) \<Rightarrow> mh_cfg \<Rightarrow> exn + bool" where
  "is_market_hours py_int now_tz cfg_mh =
     (if timezone cfg_mh \<noteq> None \<and> open_hhmm cfg_mh \<noteq> None \<and> close_hhmm cfg_mh \<noteq> None then
        (case parse_hhmm py_int (get_default (open_hhmm cfg_mh) ''09:30'') of
           Inl e \<Rightarrow> Inl e
         | Inr opn \<Rightarrow>
        (case parse_hhmm py_int (get_default (close_hhmm cfg_mh) ''16:00'') of
           Inl e \<Rightarrow> Inl e
         | Inr cls \<Rightarrow>
        (let days = get_default (active_days cfg_mh) [1, 2, 3, 4, 5];
             pause = get_default (pause_on_closed cfg_mh) True
         in if \<not> pause then Inr True
            else
              (case now_tz (get_default (timezone cfg_mh) ''America/New_York'') of
                 Inl e \<Rightarrow> Inl e
               | Inr n \<Rightarrow>
                   (let wk = int (weekday n) + 1
                    in if days \<noteq> [] \<and> wk \<notin> set days then Inr False
                       else in_window n opn cls)))))
      else if \<not> get_default (enabled cfg_mh) True then Inr True
      else
        (case now_tz (get_default (tz cfg_mh) ''America/New_York'') of
           Inl e \<Rightarrow> Inl e
         | Inr n \<Rightarrow>
             if get_default (days_mon_to_fri_only cfg_mh) True \<and> weekday n \<ge> 5 then Inr False
             else Inr (get_default (start_hour cfg_mh) 9 \<le> int (hour n)
                       \<and> int (hour n) < get_default (end_hour cfg_mh) 16)))"

text \<open>\<^verbatim>\<open>within_market_hours\<close> of stock_agent.py: schema A only, the pause test first.\<close>

definition within_market_hours ::
  "(string \<Rightarrow> int option) \<Rightarrow> (string \<Rightarrow> exn + datetime) \<Rightarrow> mh_cfg \<Rightarrow> exn + bool" where
  "within_market_hours py_int now_tz cfg =
     (if \<not> get_default (pause_on_closed cfg) True then Inr True
      else
        (case parse_hhmm py_int (get_default (open_hhmm cfg) ''09:30'') of
           Inl e \<Rightarrow> Inl e
         | Inr opn \<Rightarrow>
        (case parse_hhmm py_int (get_default (close_hhmm cfg) ''16:00'') of
           Inl e \<Rightarrow> Inl e
         | Inr cls \<Rightarrow>
        (let days = get_default (active_days cfg) [1, 2, 3, 4, 5]
         in case now_tz (get_default (timezone cfg) ''America/New_York'') of
              Inl e \<Rightarrow> Inl e
            | Inr n \<Rightarrow>
                (let wk = int (weekday n) + 1
                 in if days \<noteq> [] \<and> wk \<notin> set days then Inr False
                    else in_window n opn cls)))))"

section \<open>The collaborators of one run\<close>

text \<open>
  A headline dict (\<^verbatim>\<open>title\<close>, \<^verbatim>\<open>source\<close>, \<^verbatim>\<open>url\<close>, \<^verbatim>\<open>link\<close>; an absent
  key is \<open>None\<close>), the arguments of one \<^verbatim>\<open>notify_ntfy\<close> call, and the effects a run
  leaves behind, in order: a \<^verbatim>\<open>notify_ntfy\<close> call made while processing a ticker, an
  assignment \<^verbatim>\<open>state[tk] = v\<close>, a \<^verbatim>\<open>save_state\<close> call with the mapping it was
  given, and the error line of the per-ticker \<^verbatim>\<open>except\<close>.
\<close>

record headline =
  h_title :: "string option"
  h_source :: "string option"
  h_url :: "string option"
  h_link :: "string option"

record notification =
  n_title :: string
  n_message :: string
  n_click :: "json option"
  n_dry_run :: bool

datatype event =
    Notify string notification
  | SetState string string
  | SaveState state
  | LogError string exn

text \<open>
  The arguments of a run. Of \<^verbatim>\<open>test_cfg\<close> the truth values of its flags and the
  forced delta; of \<^verbatim>\<open>news_cfg\<close> whether the news block runs
  (\<^verbatim>\<open>news_cfg and news_cfg.get("enabled", ...)\<close>). The dispatcher's server and topic
  are left out. And the facts sent to the LLM client.
\<close>

record test_config =
  t_enabled :: bool
  bypass_market_hours :: bool
  force_run_outside_hours :: bool
  force_delta_pct :: "real option"
  dry_run :: bool

record run_cfg =
  tickers :: "string list"
  threshold :: real
  market_hours_cfg :: mh_cfg
  test_cfg :: test_config
  news_on :: bool

record llm_request =
  q_ticker :: string
  q_open :: real
  q_last :: real
  q_delta_pct :: real
  q_threshold_pct :: real
  q_headlines :: "headline list"

text \<open>
  What a run calls outside the files at hand, each a function of its arguments:
  Python's \<^verbatim>\<open>int\<close> on strings, the clock, the price provider, the enrichment block
  of \<^verbatim>\<open>run_once\<close> (core.py lines 209 to 268: it computes \<^verbatim>\<open>headlines_block\<close> and
  \<^verbatim>\<open>click_url\<close> or raises, and touches neither the state nor the dispatcher), the
  headline block of \<^verbatim>\<open>run_agent_once\<close> (lines 185 to 210), the dispatcher
  (\<open>None\<close>: it returned), \<^verbatim>\<open>path.write_text\<close> on the text of a state, the float
  formats \<^verbatim>\<open>:.2f\<close> and \<^verbatim>\<open>:+.2f\<close>, the optional LLM client (its answer is the
  message content, or an exception), \<^verbatim>\<open>json.loads\<close>, \<^verbatim>\<open>str\<close> on an object that
  is not a string, and \<^verbatim>\<open>str.strip\<close>.
\<close>

record env =
  py_int :: "string \<Rightarrow> int option"
  now_tz :: "string \<Rightarrow> exn + datetime"
  get_open_and_last :: "string \<Rightarrow> exn + (real \<times> real)"
  enrich :: "string \<Rightarrow> exn + (string \<times> string option)"
  agent_headlines :: "string \<Rightarrow> exn + headline list"
  notify_ntfy :: "notification \<Rightarrow> exn option"
  write_text :: "state \<Rightarrow> write_result"
  fmt2 :: "real \<Rightarrow> string"
  fmt_signed2 :: "real \<Rightarrow> string"
  client :: "(llm_request \<Rightarrow> exn + string option) option"
  json_loads :: "string \<Rightarrow> exn + json"
  py_str :: "json \<Rightarrow> string"
  py_strip :: "string \<Rightarrow> string"

type_synonym outcome = "(state \<times> sfile) \<times> event list \<times> exn option"

text \<open>
  \<^verbatim>\<open>state[tk] = v; save_state(state_file, state)\<close>, the two statements that follow
  each other in both orchestrators. The in-memory dict is changed before the save
  can raise; when it raises, the dict keeps the assignment and the file is what the
  failed write left.
\<close>

definition set_and_save :: "env \<Rightarrow> string \<Rightarrow> string \<Rightarrow> state \<times> sfile \<Rightarrow> event list \<Rightarrow> outcome" where
  "set_and_save e tk v w evs =
     (let mem' = AList.update tk (JStr v) (fst w)
      in case save_state (write_text e) (snd w) mem' of
           (f', ex) \<Rightarrow> ((mem', f'), evs @ [SetState tk v, SaveState mem'], ex))"

text \<open>The \<^verbatim>\<open>for\<close> loop over the tickers with its \<^verbatim>\<open>try\<close>/\<^verbatim>\<open>except Exception\<close>.\<close>

definition catch_ticker :: "string \<Rightarrow> outcome \<Rightarrow> (state \<times> sfile) \<times> event list" where
  "catch_ticker tk r =
     (case r of (w, evs, ex) \<Rightarrow>
        (w, evs @ (case ex of None \<Rightarrow> [] | Some x \<Rightarrow> [LogError tk x])))"

fun run_tickers ::
  "(string \<Rightarrow> state \<times> sfile \<Rightarrow> (state \<times> sfile) \<times> event list) \<Rightarrow> string list \<Rightarrow>
   state \<times> sfile \<Rightarrow> (state \<times> sfile) \<times> event list" where
  "run_tickers step [] w = (w, [])"
| "run_tickers step (tk # tks) w =
     (case step tk w of (w', evs) \<Rightarrow>
        (case run_tickers step tks w' of (w'', evs') \<Rightarrow> (w'', evs @ evs')))"

section \<open>core.py: one run\<close>

definition chart_up :: string where "chart_up = [CHR 0xF0, CHR 0x9F, CHR 0x93, CHR 0x88]"
definition chart_down :: string where "chart_down = [CHR 0xF0, CHR 0x9F, CHR 0x93, CHR 0x89]"
definition arrow_up :: string where "arrow_up = [CHR 0xE2, CHR 0x86, CHR 0x91]"
definition arrow_down :: string where "arrow_down = [CHR 0xE2, CHR 0x86, CHR 0x93]"
definition bullet :: string where "bullet = [CHR 0xE2, CHR 0x80, CHR 0xA2]"
definition emdash :: string where "emdash = [CHR 0xE2, CHR 0x80, CHR 0x94]"
definition link_sign :: string where "link_sign = [CHR 0xF0, CHR 0x9F, CHR 0x94, CHR 0x97]"
definition news_sign :: string where "news_sign = [CHR 0xF0, CHR 0x9F, CHR 0x93, CHR 0xB0]"

definition format_title :: "string \<Rightarrow> string" where
  "format_title ticker = ''Stock Alert: '' @ ticker"

definition format_body :: "env \<Rightarrow> string \<Rightarrow> real \<Rightarrow> real \<Rightarrow> real \<Rightarrow> string" where
  "format_body e ticker open_price last_price pct =
     (if pct \<ge> 0 then chart_up else chart_down) @ '' '' @ ticker @ '': ''
       @ fmt_signed2 e pct @ ''% vs. Open'' @ newline
       @ ''Aktuell: '' @ fmt2 e last_price @ '' | Open: '' @ fmt2 e open_price"

text \<open>
  The test override of lines 187 to 194: the change against the open and the last price
  used from there on.
\<close>

definition apply_forced_delta :: "test_config \<Rightarrow> real \<Rightarrow> real \<Rightarrow> real \<times> real" where
  "apply_forced_delta tc open_px last_px =
     (let pct = pct_change open_px last_px
      in case (if t_enabled tc then force_delta_pct tc else None) of
           None \<Rightarrow> (pct, last_px)
         | Some forced \<Rightarrow> (forced, open_px * (1 + forced / 100)))"

text \<open>
  The body of the \<^verbatim>\<open>try\<close> for one ticker in \<^verbatim>\<open>run_once\<close> (lines 183 to 295).
  The third component is the exception that ended it, if any.
\<close>

definition ticker_body :: "env \<Rightarrow> run_cfg \<Rightarrow> string \<Rightarrow> state \<times> sfile \<Rightarrow> outcome" where
  "ticker_body e cfg tk w =
     (case get_open_and_last e tk of
        Inl x \<Rightarrow> (w, [], Some x)
      | Inr (open_px, last_px0) \<Rightarrow>
          if open_px = 0 then (w, [], Some RuntimeError)
          else
            (case apply_forced_delta (test_cfg cfg) open_px last_px0 of
               (pct, last_px) \<Rightarrow>
                 (let prev = state_get (fst w) tk;
                      direction = classify pct (threshold cfg)
                  in if direction \<noteq> ''none'' \<and> JStr direction \<noteq> prev then
                       (case (if news_on cfg then enrich e tk else Inr ([], None)) of
                          Inl x \<Rightarrow> (w, [], Some x)
                        | Inr (headlines_block, click_url) \<Rightarrow>
                            (let n = \<lparr>n_title = format_title tk,
                                      n_message = format_body e tk open_px last_px pct
                                                    @ headlines_block,
                                      n_click = map_option JStr click_url,
                                      n_dry_run = dry_run (test_cfg cfg)\<rparr>
                             in case notify_ntfy e n of
                                  Some x \<Rightarrow> (w, [Notify tk n], Some x)
                                | None \<Rightarrow> set_and_save e tk direction w [Notify tk n]))
                     else if direction = ''none'' then
                       (if prev \<noteq> JStr ''none'' then set_and_save e tk ''none'' w []
                        else (w, [], None))
                     else (w, [], None))))"

definition process_ticker :: "env \<Rightarrow> run_cfg \<Rightarrow> string \<Rightarrow> state \<times> sfile \<Rightarrow> (state \<times> sfile) \<times> event list" where
  "process_ticker e cfg tk w = catch_ticker tk (ticker_body e cfg tk w)"

text \<open>
  \<^verbatim>\<open>run_once\<close>: the start line of the log reads the clock, the market-hours gate
  with the two test overrides, \<^verbatim>\<open>load_state\<close>, then the loop. The result is the
  state file the run leaves and its effects; an exception outside the loop ends the run.
\<close>

definition run_once :: "env \<Rightarrow> run_cfg \<Rightarrow> sfile \<Rightarrow> exn + (sfile \<times> event list)" where
  "run_once e cfg f =
     (let mh = market_hours_cfg cfg
      in case now_tz e (or_else (timezone mh) (or_else (tz mh) ''America/New_York'')) of
           Inl x \<Rightarrow> Inl x
         | Inr _ \<Rightarrow>
             (case is_market_hours (py_int e) (now_tz e) mh of
                Inl x \<Rightarrow> Inl x
              | Inr inside0 \<Rightarrow>
                  (let inside = (inside0
                         \<or> (t_enabled (test_cfg cfg) \<and> bypass_market_hours (test_cfg cfg))
                         \<or> force_run_outside_hours (test_cfg cfg))
                   in if \<not> inside then Inr (f, [])
                      else
                        (case load_state f of
                           Inl x \<Rightarrow> Inl x
                         | Inr st \<Rightarrow>
                             (case run_tickers (process_ticker e cfg) (tickers cfg) (st, f) of
                                (w, evs) \<Rightarrow> Inr (snd w, evs))))))"

section \<open>stock_agent.py: the composer and one agent run\<close>

text \<open>
  The loop over the headlines in \<^verbatim>\<open>format_plain_push\<close> (lines 76 to 83), with
  \<^verbatim>\<open>str.strip\<close> as its first argument.
\<close>

fun plain_lines :: "(string \<Rightarrow> string) \<Rightarrow> headline list \<Rightarrow> string list" where
  "plain_lines strip [] = []"
| "plain_lines strip (it # its) =
     (let title_h = strip (or_else (h_title it) []);
          url = strip (or_else (h_url it) (or_else (h_link it) []));
          src = strip (or_else (h_source it) [])
      in if title_h = [] \<or> url = [] then plain_lines strip its
         else [bullet @ '' '' @ title_h @ '' '' @ emdash @ '' '' @ src,
               ''   '' @ link_sign @ '' '' @ url] @ plain_lines strip its)"

definition first_click :: "headline \<Rightarrow> json option" where
  "first_click it =
     (case h_url it of
        Some u \<Rightarrow> if u \<noteq> [] then Some (JStr u) else map_option JStr (h_link it)
      | None \<Rightarrow> map_option JStr (h_link it))"

definition format_plain_push ::
  "env \<Rightarrow> string \<Rightarrow> real \<Rightarrow> real \<Rightarrow> real \<Rightarrow> headline list \<Rightarrow> string \<times> string \<times> json option" where
  "format_plain_push e ticker open_px last_px delta_pct headlines =
     (let up = (delta_pct \<ge> 0);
          title = ''Stock Alert: '' @ ticker;
          body = (if up then chart_up else chart_down) @ '' '' @ ticker @ '': ''
                   @ (if up then arrow_up else arrow_down) @ '' '' @ fmt2 e \<bar>delta_pct\<bar>
                   @ ''% vs. Open'' @ newline
                   @ ''Aktuell: '' @ fmt2 e last_px @ '' | Open: '' @ fmt2 e open_px
      in case headlines of
           [] \<Rightarrow> (title, body, None)
         | h0 # _ \<Rightarrow>
             (title,
              body @ join_lines ([[], news_sign @ '' News:'']
                                   @ plain_lines (py_strip e) headlines),
              first_click h0))"

text \<open>\<^verbatim>\<open>data.get(key) or ...\<close> on the parsed answer: the value when it is truthy.\<close>

definition truthy_get :: "(string \<times> json) list \<Rightarrow> string \<Rightarrow> json option" where
  "truthy_get kvs k =
     (case map_of kvs k of None \<Rightarrow> None | Some v \<Rightarrow> if truthy v then Some v else None)"

definition to_str :: "env \<Rightarrow> json \<Rightarrow> string" where
  "to_str e v = (case v of JStr s \<Rightarrow> s | _ \<Rightarrow> py_str e v)"

text \<open>The \<^verbatim>\<open>user\<close> dict sent to the client.\<close>

definition user_payload ::
  "string \<Rightarrow> real \<Rightarrow> real \<Rightarrow> real \<Rightarrow> headline list \<Rightarrow> real \<Rightarrow> llm_request" where
  "user_payload ticker open_px last_px delta_pct headlines threshold_pct =
     \<lparr>q_ticker = ticker, q_open = open_px, q_last = last_px, q_delta_pct = delta_pct,
      q_threshold_pct = threshold_pct, q_headlines = take 5 headlines\<rparr>"

text \<open>
  \<^verbatim>\<open>agent_summarize_and_decide\<close>. Without a client the decision is the magnitude
  test. With a client, everything from the request on is inside \<^verbatim>\<open>try\<close>: an
  exception of the client or of \<^verbatim>\<open>json.loads\<close>, and the AttributeError of
  \<^verbatim>\<open>data.get\<close> on an answer that is not a dict, reach the \<^verbatim>\<open>except\<close> branch.
\<close>

definition agent_summarize_and_decide ::
  "env \<Rightarrow> string \<Rightarrow> real \<Rightarrow> real \<Rightarrow> real \<Rightarrow> headline list \<Rightarrow> real \<Rightarrow>
   bool \<times> string \<times> string \<times> json option" where
  "agent_summarize_and_decide e ticker open_px last_px delta_pct headlines threshold_pct =
     (let plain = format_plain_push e ticker open_px last_px delta_pct headlines;
          fallback = (\<bar>delta_pct\<bar> \<ge> threshold_pct, plain)
      in case client e of
           None \<Rightarrow> fallback
         | Some llm \<Rightarrow>
             (case llm (user_payload ticker open_px last_px delta_pct headlines threshold_pct) of
                Inl x \<Rightarrow> fallback
              | Inr answer \<Rightarrow>
                  (case json_loads e (or_else answer ''{}'') of
                     Inl x \<Rightarrow> fallback
                   | Inr data \<Rightarrow>
                       (case data of
                          JObj kvs \<Rightarrow>
                            (let send_alert =
                                   (case map_of kvs ''send_alert'' of
                                      None \<Rightarrow> \<bar>delta_pct\<bar> \<ge> threshold_pct
                                    | Some v \<Rightarrow> truthy v);
                                 title = (case truthy_get kvs ''title'' of
                                            Some v \<Rightarrow> to_str e v
                                          | None \<Rightarrow> ''Stock Alert: '' @ ticker);
                                 body = (case truthy_get kvs ''body'' of
                                           Some v \<Rightarrow> to_str e v
                                         | None \<Rightarrow> []);
                                 click_url = truthy_get kvs ''click_url''
                             in if body = [] then (send_alert, plain)
                                else (send_alert, title, body, click_url))
                        | _ \<Rightarrow> fallback))))"

text \<open>The body of the \<^verbatim>\<open>try\<close> for one ticker in \<^verbatim>\<open>run_agent_once\<close> (lines 177 to 241).\<close>

definition agent_ticker_body :: "env \<Rightarrow> run_cfg \<Rightarrow> string \<Rightarrow> state \<times> sfile \<Rightarrow> outcome" where
  "agent_ticker_body e cfg t w =
     (case get_open_and_last e t of
        Inl x \<Rightarrow> (w, [], Some x)
      | Inr (open_px, last_px) \<Rightarrow>
          (let d_pct = pct_change open_px last_px;
               direction = classify d_pct (threshold cfg);
               prev = state_get (fst w) t
           in case (if news_on cfg then agent_headlines e t else Inr []) of
                Inl x \<Rightarrow> (w, [], Some x)
              | Inr headlines \<Rightarrow>
                  (case agent_summarize_and_decide e t open_px last_px d_pct headlines
                          (threshold cfg) of
                     (send, title, body, click) \<Rightarrow>
                       if direction \<noteq> ''none'' \<and> JStr direction \<noteq> prev \<and> send then
                         (let n = \<lparr>n_title = title, n_message = body, n_click = click,
                                   n_dry_run = dry_run (test_cfg cfg)\<rparr>
                          in case notify_ntfy e n of
                               Some x \<Rightarrow> (w, [Notify t n], Some x)
                             | None \<Rightarrow> set_and_save e t direction w [Notify t n])
                       else if direction = ''none'' \<and> prev \<noteq> JStr ''none'' then
                         set_and_save e t ''none'' w []
                       else (w, [], None))))"

definition agent_process_ticker ::
  "env \<Rightarrow> run_cfg \<Rightarrow> string \<Rightarrow> state \<times> sfile \<Rightarrow> (state \<times> sfile) \<times> event list" where
  "agent_process_ticker e cfg t w = catch_ticker t (agent_ticker_body e cfg t w)"

definition run_agent_once :: "env \<Rightarrow> run_cfg \<Rightarrow> sfile \<Rightarrow> exn + (sfile \<times> event list)" where
  "run_agent_once e cfg f =
     (let mh = market_hours_cfg cfg
      in case (if get_default (pause_on_closed mh) True \<and> \<not> bypass_market_hours (test_cfg cfg)
               then within_market_hours (py_int e) (now_tz e) mh
               else Inr True) of
           Inl x \<Rightarrow> Inl x
         | Inr inside \<Rightarrow>
             if \<not> inside then Inr (f, [])
             else
               (case load_state f of
                  Inl x \<Rightarrow> Inl x
                | Inr st \<Rightarrow>
                    (case now_tz e (get_default (timezone mh) ''America/New_York'') of
                       Inl x \<Rightarrow> Inl x
                     | Inr _ \<Rightarrow>
                         (case run_tickers (agent_process_ticker e cfg) (tickers cfg) (st, f) of
                            (w, evs) \<Rightarrow> Inr (snd w, evs)))))"

section \<open>news.py: the URL resolver\<close>

text \<open>
  \<^verbatim>\<open>_ensure_https\<close> (core.py and news.py) and the local \<^verbatim>\<open>ensure_https\<close> of
  \<^verbatim>\<open>_extract_original_url\<close>, the same body three times.
\<close>

definition ensure_https :: "string \<Rightarrow> string" where
  "ensure_https u =
     (if u = [] then []
      else if prefix ''http://'' u \<or> prefix ''https://'' u then u
      else ''https://'' @ lstrip_slash u)"

text \<open>
  The result of \<^verbatim>\<open>urlparse\<close>, a response of \<^verbatim>\<open>requests.get\<close> (its redirect
  history, its final URL and its body, whose decoding may raise), and the library the
  resolver calls: \<^verbatim>\<open>urlparse\<close> (it raises ValueError on some inputs),
  \<^verbatim>\<open>urlunparse\<close>, \<^verbatim>\<open>parse_qs\<close>, \<^verbatim>\<open>unquote\<close>, \<^verbatim>\<open>requests.get\<close> with
  redirects followed, the first group of each of the four \<^verbatim>\<open>re.search\<close> patterns of
  step 3c and 3d, the \<^verbatim>\<open>re.findall\<close> of absolute URLs, the Google-host pattern of
  step 3e and the \<^verbatim>\<open>re.sub\<close> that drops tracking parameters. Each is a fixed function
  of its arguments. The last field is \<^verbatim>\<open>str.strip\<close>, which the headline block of
  core.py calls before it calls the resolver.
\<close>

record parsed =
  u_scheme :: string
  u_netloc :: string
  u_path :: string
  u_params :: string
  u_query :: string
  u_fragment :: string

record hop =
  location :: "string option"
  hop_url :: string

record response =
  r_history :: "hop list"
  r_url :: string
  r_text :: "exn + string"

record urllib =
  urlparse :: "string \<Rightarrow> exn + parsed"
  urlunparse :: "parsed \<Rightarrow> string"
  parse_qs :: "string \<Rightarrow> (string \<times> string list) list"
  unquote :: "string \<Rightarrow> string"
  requests_get :: "string \<Rightarrow> exn + response"
  re_canonical :: "string \<Rightarrow> string option"
  re_refresh :: "string \<Rightarrow> string option"
  re_location :: "string \<Rightarrow> string option"
  re_url_param :: "string \<Rightarrow> string option"
  re_findall_urls :: "string \<Rightarrow> string list"
  re_google_host :: "string \<Rightarrow> bool"
  re_sub_tracking :: "string \<Rightarrow> string"
  str_strip :: "string \<Rightarrow> string"

text \<open>
  The local \<^verbatim>\<open>consent_continue\<close>. Its \<^verbatim>\<open>urlparse\<close> call is not guarded: the
  exception leaves the function.
\<close>

definition consent_continue :: "urllib \<Rightarrow> string \<Rightarrow> exn + string option" where
  "consent_continue lib u =
     (case urlparse lib u of
        Inl x \<Rightarrow> Inl x
      | Inr p \<Rightarrow>
          if \<not> contains ''consent.google.'' (u_netloc p) then Inr None
          else
            (let qs = parse_qs lib (u_query p);
                 cont = (case map_of qs ''continue'' of
                           Some (v # vs) \<Rightarrow> Some (v # vs)
                         | _ \<Rightarrow> map_of qs ''continue_url'')
             in case cont of
                  Some (c # _) \<Rightarrow>
                    if c \<noteq> [] then Inr (Some (ensure_https (unquote lib c))) else Inr None
                | _ \<Rightarrow> Inr None))"

text \<open>Step 1 (lines 85 to 92), inside \<^verbatim>\<open>try\<close>: \<open>Some r\<close> when it returns \<open>r\<close>.\<close>

definition direct_redirect :: "urllib \<Rightarrow> string \<Rightarrow> string option" where
  "direct_redirect lib url =
     (case urlparse lib url of
        Inl x \<Rightarrow> None
      | Inr p \<Rightarrow>
          if contains ''news.google.'' (u_netloc p) then
            (case map_of (parse_qs lib (u_query p)) ''url'' of
               Some (v # _) \<Rightarrow> Some (ensure_https (unquote lib v))
             | _ \<Rightarrow> None)
          else None)"

text \<open>Step 3 (lines 100 to 106), inside \<^verbatim>\<open>try\<close>: the URL held afterwards.\<close>

definition rewrite_rss :: "urllib \<Rightarrow> string \<Rightarrow> string" where
  "rewrite_rss lib url =
     (case urlparse lib url of
        Inl x \<Rightarrow> url
      | Inr p \<Rightarrow>
          if contains ''news.google.'' (u_netloc p) \<and> contains ''/rss/articles/'' (u_path p)
          then urlunparse lib (p\<lparr>u_path := replace ''/rss/articles/'' ''/articles/'' (u_path p)\<rparr>)
          else url)"

definition hop_target :: "hop \<Rightarrow> string" where
  "hop_target h = or_else (location h) (hop_url h)"

text \<open>Step 3a, the loop over \<^verbatim>\<open>r.history\<close>.\<close>

fun first_consent :: "urllib \<Rightarrow> hop list \<Rightarrow> exn + string option" where
  "first_consent lib [] = Inr None"
| "first_consent lib (h # hs) =
     (case consent_continue lib (hop_target h) of
        Inl x \<Rightarrow> Inl x
      | Inr (Some c) \<Rightarrow> if c \<noteq> [] then Inr (Some c) else first_consent lib hs
      | Inr None \<Rightarrow> first_consent lib hs)"

text \<open>Step 3e: the first candidate that the Google-host pattern does not match.\<close>

definition brute_force :: "urllib \<Rightarrow> string \<Rightarrow> string option" where
  "brute_force lib html =
     (case filter (\<lambda>cand. \<not> re_google_host lib cand) (re_findall_urls lib html) of
        [] \<Rightarrow> None
      | cand # _ \<Rightarrow> Some (ensure_https (unquote lib cand)))"

text \<open>Steps 3c to 3e on the body.\<close>

definition inspect_html :: "urllib \<Rightarrow> string \<Rightarrow> string option" where
  "inspect_html lib html =
     (case re_canonical lib html of
        Some g \<Rightarrow> Some (ensure_https (unquote lib g))
      | None \<Rightarrow>
     (case re_refresh lib html of
        Some g \<Rightarrow> Some (ensure_https (unquote lib g))
      | None \<Rightarrow>
     (case re_location lib html of
        Some g \<Rightarrow> Some (ensure_https (unquote lib g))
      | None \<Rightarrow>
     (case re_url_param lib html of
        Some g \<Rightarrow> Some (ensure_https (unquote lib g))
      | None \<Rightarrow> brute_force lib html))))"

text \<open>
  The \<^verbatim>\<open>try\<close> block of lines 117 to 156: \<open>Some r\<close> when it returns \<open>r\<close>,
  \<open>None\<close> when it falls through or an exception is swallowed.
\<close>

definition follow_redirects :: "urllib \<Rightarrow> string \<Rightarrow> string option" where
  "follow_redirects lib url =
     (case requests_get lib url of
        Inl x \<Rightarrow> None
      | Inr r \<Rightarrow>
          (case first_consent lib (r_history r) of
             Inl x \<Rightarrow> None
           | Inr (Some c) \<Rightarrow> Some c
           | Inr None \<Rightarrow>
               if r_url r \<noteq> [] \<and> \<not> contains ''google.com'' (r_url r)
                  \<and> \<not> contains ''google.'' (r_url r)
               then Some (ensure_https (r_url r))
               else (case r_text r of Inl x \<Rightarrow> None | Inr html \<Rightarrow> inspect_html lib html)))"

text \<open>Step 4 (lines 159 to 168), the body of \<^verbatim>\<open>_clean_tracking_params\<close> as well.\<close>

definition clean_tracking_params :: "urllib \<Rightarrow> string \<Rightarrow> string" where
  "clean_tracking_params lib url =
     (case urlparse lib url of
        Inl x \<Rightarrow> url
      | Inr p \<Rightarrow>
          (let clean_q = re_sub_tracking lib (u_query p)
           in if clean_q \<noteq> u_query p then urlunparse lib (p\<lparr>u_query := clean_q\<rparr>) else url))"

text \<open>\<^verbatim>\<open>_extract_original_url(url, resolve_redirects=...)\<close>.\<close>

definition extract_original_url :: "urllib \<Rightarrow> string \<Rightarrow> bool \<Rightarrow> exn + string" where
  "extract_original_url lib url0 resolve_redirects =
     (let url = ensure_https url0
      in case direct_redirect lib url of
           Some r \<Rightarrow> Inr r
         | None \<Rightarrow>
             (case consent_continue lib url of
                Inl x \<Rightarrow> Inl x
              | Inr cc \<Rightarrow>
                  if cc \<noteq> None \<and> cc \<noteq> Some [] then Inr (the cc)
                  else
                    (let url' = rewrite_rss lib url
                     in if \<not> resolve_redirects then Inr url'
                        else
                          (case follow_redirects lib url' of
                             Some r \<Rightarrow> Inr r
                           | None \<Rightarrow> Inr (clean_tracking_params lib url')))))"

section \<open>core.py: the headline block\<close>

text \<open>\<^verbatim>\<open>_item_url\<close>: the \<^verbatim>\<open>url\<close> entry, else the \<^verbatim>\<open>link\<close> entry, stripped.\<close>

definition item_url :: "urllib \<Rightarrow> headline \<Rightarrow> string" where
  "item_url lib it =
     ensure_https (str_strip lib (or_else (h_url it) (or_else (h_link it) [])))"

text \<open>
  The \<^verbatim>\<open>try\<close> around the resolver in \<^verbatim>\<open>_format_headlines\<close>: the raw URL when
  the resolver raises.
\<close>

definition resolve_or_raw :: "urllib \<Rightarrow> string \<Rightarrow> string" where
  "resolve_or_raw lib url =
     (case extract_original_url lib url True of Inl x \<Rightarrow> url | Inr orig \<Rightarrow> orig)"

definition bullet_line :: "string \<Rightarrow> string \<Rightarrow> string \<Rightarrow> string" where
  "bullet_line title orig src =
     bullet @ '' ['' @ title @ '']('' @ orig @ '')''
       @ (if src \<noteq> [] then '' '' @ emdash @ '' '' @ src else [])"

definition link_line :: "string \<Rightarrow> string" where
  "link_line orig = ''   '' @ link_sign @ '' '' @ orig"

text \<open>
  The loop of \<^verbatim>\<open>_format_headlines\<close>: the lines appended for the items still to come,
  given the set \<^verbatim>\<open>seen\<close>. (The short domain computed in the loop is not used in
  the output.)
\<close>

fun headline_lines :: "urllib \<Rightarrow> headline list \<Rightarrow> string set \<Rightarrow> string list" where
  "headline_lines lib [] seen = []"
| "headline_lines lib (it # items) seen =
     (let title = str_strip lib (or_else (h_title it) []);
          src = str_strip lib (or_else (h_source it) []);
          url = item_url lib it
      in if title = [] \<or> url = [] then headline_lines lib items seen
         else
           (let orig = resolve_or_raw lib url
            in if orig \<in> seen then headline_lines lib items seen
               else [bullet_line title orig src, link_line orig]
                      @ headline_lines lib items (insert orig seen)))"

definition format_headlines :: "urllib \<Rightarrow> headline list \<Rightarrow> string" where
  "format_headlines lib items =
     (if items = [] then [] else join_lines (headline_lines lib items {}))"

section \<open>Measures and concrete collaborators used in the statements\<close>

text \<open>Microseconds since local midnight, of a clock reading and of an \<^verbatim>\<open>HH:MM\<close> pair.\<close>

definition time_of_day :: "datetime \<Rightarrow> nat" where
  "time_of_day n = ((hour n * 60 + minute n) * 60 + second n) * 1000000 + microsecond n"

definition hm_micro :: "int \<times> int \<Rightarrow> nat" where
  "hm_micro hm = (nat (fst hm) * 60 + nat (snd hm)) * 60 * 1000000"

definition valid_clock :: "datetime \<Rightarrow> bool" where
  "valid_clock n = (hour n < 24 \<and> minute n < 60 \<and> second n < 60 \<and> microsecond n < 1000000)"

definition valid_hm :: "int \<times> int \<Rightarrow> bool" where
  "valid_hm hm = (0 \<le> fst hm \<and> fst hm \<le> 23 \<and> 0 \<le> snd hm \<and> snd hm \<le> 59)"

text \<open>Python's \<^verbatim>\<open>int\<close> on a non-empty string of decimal digits (it raises on the rest here).\<close>

definition digit_val :: "char \<Rightarrow> int option" where
  "digit_val c = map_of (zip ''0123456789'' [0, 1, 2, 3, 4, 5, 6, 7, 8, 9]) c"

fun digits_acc :: "int \<Rightarrow> string \<Rightarrow> int option" where
  "digits_acc acc [] = Some acc"
| "digits_acc acc (c # cs) =
     (case digit_val c of None \<Rightarrow> None | Some d \<Rightarrow> digits_acc (10 * acc + d) cs)"

definition digits_int :: "string \<Rightarrow> int option" where
  "digits_int s = (if s = [] then None else digits_acc 0 s)"

text \<open>A New York style schema A configuration, and a clock reading on a Monday.\<close>

definition nyse_cfg :: mh_cfg where
  "nyse_cfg = \<lparr>timezone = Some ''America/New_York'', open_hhmm = Some ''09:30'',
               close_hhmm = Some ''16:00'', active_days = Some [1, 2, 3, 4, 5],
               pause_on_closed = Some True, enabled = None, tz = None, start_hour = None,
               end_hour = None, days_mon_to_fri_only = None\<rparr>"

definition monday_at :: "nat \<Rightarrow> nat \<Rightarrow> nat \<Rightarrow> nat \<Rightarrow> datetime" where
  "monday_at h m s us = \<lparr>weekday = 0, hour = h, minute = m, second = s, microsecond = us\<rparr>"

text \<open>
  What the advisory collaborator said about sending: the \<^verbatim>\<open>send_alert\<close> entry of its
  answer, when there is a client, it returns, its answer parses to a JSON object and the
  object has that key; \<open>None\<close> otherwise.
\<close>

definition advisory_send_alert ::
  "env \<Rightarrow> string \<Rightarrow> real \<Rightarrow> real \<Rightarrow> real \<Rightarrow> headline list \<Rightarrow> real \<Rightarrow> json option" where
  "advisory_send_alert e ticker open_px last_px delta_pct headlines threshold_pct =
     (case client e of
        None \<Rightarrow> None
      | Some llm \<Rightarrow>
          (case llm (user_payload ticker open_px last_px delta_pct headlines threshold_pct) of
             Inl x \<Rightarrow> None
           | Inr answer \<Rightarrow>
               (case json_loads e (or_else answer ''{}'') of
                  Inr (JObj kvs) \<Rightarrow> map_of kvs ''send_alert''
                | _ \<Rightarrow> None)))"

text \<open>
  Successive scheduled runs: each run reads the state file the run before it left.
  The result keeps the effects of every run apart.
\<close>

fun run_seq ::
  "(env \<Rightarrow> run_cfg \<Rightarrow> sfile \<Rightarrow> exn + (sfile \<times> event list)) \<Rightarrow> env list \<Rightarrow> run_cfg \<Rightarrow> sfile \<Rightarrow>
   exn + (sfile \<times> event list list)" where
  "run_seq run [] cfg f = Inr (f, [])"
| "run_seq run (e # es) cfg f =
     (case run e cfg f of
        Inl x \<Rightarrow> Inl x
      | Inr (f', evs) \<Rightarrow>
          (case run_seq run es cfg f' of
             Inl x \<Rightarrow> Inl x
           | Inr (f'', evss) \<Rightarrow> Inr (f'', evs # evss)))"

text \<open>
  The number of \<^verbatim>\<open>notify_ntfy\<close> calls made for a ticker; whether \<^verbatim>\<open>load_state\<close>
  returns on a state file, the mapping it returns, and the value the state file holds
  for a ticker (\<open>None\<close>: no entry).
\<close>

fun is_notify_for :: "string \<Rightarrow> event \<Rightarrow> bool" where
  "is_notify_for tk (Notify t n) = (t = tk)"
| "is_notify_for tk ev = False"

definition dispatches :: "string \<Rightarrow> event list \<Rightarrow> nat" where
  "dispatches tk evs = length (filter (is_notify_for tk) evs)"

definition loadable :: "sfile \<Rightarrow> bool" where
  "loadable f = (case load_state f of Inl x \<Rightarrow> False | Inr m \<Rightarrow> True)"

definition loaded :: "sfile \<Rightarrow> state" where
  "loaded f = (case load_state f of Inl x \<Rightarrow> [] | Inr m \<Rightarrow> m)"

definition stored :: "sfile \<Rightarrow> string \<Rightarrow> json option" where
  "stored f tk = map_of (loaded f) tk"

text \<open>
  The transition table of the corridor state machine, in the words of the
  specification: given the stored value and the direction observed, whether a
  notification is due, and the stored value afterwards.
\<close>

definition prev_of :: "json option \<Rightarrow> json" where
  "prev_of st = (case st of None \<Rightarrow> JStr ''none'' | Some v \<Rightarrow> v)"

definition corridor_fires :: "json option \<Rightarrow> string \<Rightarrow> bool" where
  "corridor_fires st d = (d \<noteq> ''none'' \<and> JStr d \<noteq> prev_of st)"

definition corridor_next :: "json option \<Rightarrow> string \<Rightarrow> json option" where
  "corridor_next st d =
     (if corridor_fires st d then Some (JStr d)
      else if d = ''none'' \<and> prev_of st \<noteq> JStr ''none'' then Some (JStr ''none'')
      else st)"

text \<open>The observed direction is to be written into the mapping: a breakout or a reset.\<close>

definition corridor_writes :: "json option \<Rightarrow> string \<Rightarrow> bool" where
  "corridor_writes st d =
     (corridor_fires st d \<or> (d = ''none'' \<and> prev_of st \<noteq> JStr ''none''))"

fun corridor_counts :: "json option \<Rightarrow> string list \<Rightarrow> nat list" where
  "corridor_counts st [] = []"
| "corridor_counts st (d # ds) =
     (if corridor_fires st d then 1 else 0) # corridor_counts (corridor_next st d) ds"

fun corridor_final :: "json option \<Rightarrow> string list \<Rightarrow> json option" where
  "corridor_final st [] = st"
| "corridor_final st (d # ds) = corridor_final (corridor_next st d) ds"

text \<open>
  A run passes the market-hours gate; and a run observes direction \<open>d\<close> for a ticker
  with every collaborator answering: the price arrives (for \<^verbatim>\<open>run_once\<close> with a
  non-zero open), its classification is \<open>d\<close>, the enrichment does not raise, the
  dispatcher and the write return. For the agent run the composer's decision is send
  as well when \<open>d\<close> is up or down. In \<open>agent_refused\<close> the agent run observes up or
  down for the ticker and the LLM client answers a JSON object whose \<^verbatim>\<open>send_alert\<close>
  entry is falsy.
\<close>

definition gate_open :: "env \<Rightarrow> run_cfg \<Rightarrow> bool" where
  "gate_open e cfg =
     (let mh = market_hours_cfg cfg
      in (\<exists>n. now_tz e (or_else (timezone mh) (or_else (tz mh) ''America/New_York'')) = Inr n)
         \<and> (\<exists>b. is_market_hours (py_int e) (now_tz e) mh = Inr b
                \<and> (b \<or> (t_enabled (test_cfg cfg) \<and> bypass_market_hours (test_cfg cfg))
                      \<or> force_run_outside_hours (test_cfg cfg))))"

definition agent_gate_open :: "env \<Rightarrow> run_cfg \<Rightarrow> bool" where
  "agent_gate_open e cfg =
     (let mh = market_hours_cfg cfg
      in (\<exists>n. now_tz e (get_default (timezone mh) ''America/New_York'') = Inr n)
         \<and> (if get_default (pause_on_closed mh) True \<and> \<not> bypass_market_hours (test_cfg cfg)
             then within_market_hours (py_int e) (now_tz e) mh = Inr True
             else True))"

definition observes :: "env \<Rightarrow> run_cfg \<Rightarrow> string \<Rightarrow> string \<Rightarrow> bool" where
  "observes e cfg tk d =
     (\<exists>open_px last_px.
        get_open_and_last e tk = Inr (open_px, last_px) \<and> open_px \<noteq> 0
        \<and> classify (fst (apply_forced_delta (test_cfg cfg) open_px last_px)) (threshold cfg) = d
        \<and> (\<exists>r. (if news_on cfg then enrich e tk else Inr ([], None)) = Inr r)
        \<and> (\<forall>n. notify_ntfy e n = None)
        \<and> (\<forall>m. write_text e m = Written))"

definition agent_observes :: "env \<Rightarrow> run_cfg \<Rightarrow> string \<Rightarrow> string \<Rightarrow> bool" where
  "agent_observes e cfg tk d =
     (\<exists>open_px last_px hs.
        get_open_and_last e tk = Inr (open_px, last_px)
        \<and> classify (pct_change open_px last_px) (threshold cfg) = d
        \<and> (if news_on cfg then agent_headlines e tk else Inr []) = Inr hs
        \<and> (d = ''none'' \<or> fst (agent_summarize_and_decide e tk open_px last_px
                                (pct_change open_px last_px) hs (threshold cfg)))
        \<and> (\<forall>n. notify_ntfy e n = None)
        \<and> (\<forall>m. write_text e m = Written))"

definition agent_refused :: "env \<Rightarrow> run_cfg \<Rightarrow> string \<Rightarrow> bool" where
  "agent_refused e cfg tk =
     (\<exists>open_px last_px hs v.
        get_open_and_last e tk = Inr (open_px, last_px)
        \<and> classify (pct_change open_px last_px) (threshold cfg) \<noteq> ''none''
        \<and> (if news_on cfg then agent_headlines e tk else Inr []) = Inr hs
        \<and> advisory_send_alert e tk open_px last_px (pct_change open_px last_px) hs
              (threshold cfg) = Some v
        \<and> \<not> truthy v
        \<and> (\<forall>m. write_text e m = Written))"

definition polls ::
  "(env \<Rightarrow> run_cfg \<Rightarrow> bool) \<Rightarrow> (env \<Rightarrow> run_cfg \<Rightarrow> string \<Rightarrow> string \<Rightarrow> bool) \<Rightarrow>
   run_cfg \<Rightarrow> string \<Rightarrow> env list \<Rightarrow> string list \<Rightarrow> bool" where
  "polls gate obs cfg tk es ds = list_all2 (\<lambda>e d. gate e cfg \<and> obs e cfg tk d) es ds"

text \<open>
  Replaying the effects of a run from the mapping it loaded: every assignment writes
  one of the three direction strings and the very next effect is the save of the whole
  mapping with that assignment made; no save stands alone. And the state file after
  the saves of a run, each with the outcome its write had.
\<close>

fun saved_after_write :: "state \<Rightarrow> event list \<Rightarrow> bool" where
  "saved_after_write mem [] = True"
| "saved_after_write mem (SetState tk v # SaveState m # evs) =
     (v \<in> {''up'', ''down'', ''none''} \<and> m = AList.update tk (JStr v) mem
      \<and> saved_after_write m evs)"
| "saved_after_write mem (SetState tk v # evs) = False"
| "saved_after_write mem (SaveState m # evs) = False"
| "saved_after_write mem (Notify t n # evs) = saved_after_write mem evs"
| "saved_after_write mem (LogError t x # evs) = saved_after_write mem evs"

fun file_after :: "(state \<Rightarrow> write_result) \<Rightarrow> sfile \<Rightarrow> event list \<Rightarrow> sfile" where
  "file_after wt f [] = f"
| "file_after wt f (SaveState m # evs) = file_after wt (fst (save_state wt f m)) evs"
| "file_after wt f (ev # evs) = file_after wt f evs"

text \<open>
  The two ways the \<^verbatim>\<open>try\<close> body of a ticker can end, shared by both orchestrators:
  the state untouched, with at most one dispatcher call made; or the assignment and
  save of one direction string, after at most one dispatcher call.
\<close>

definition step_shape :: "env \<Rightarrow> string \<Rightarrow> state \<times> sfile \<Rightarrow> outcome \<Rightarrow> bool" where
  "step_shape e tk w r =
     ((\<exists>evs ex. r = (w, evs, ex) \<and> (evs = [] \<or> (\<exists>n. evs = [Notify tk n])))
      \<or> (\<exists>v evs. r = set_and_save e tk v w evs \<and> (v = ''up'' \<or> v = ''down'' \<or> v = ''none'')
            \<and> (evs = [] \<or> (\<exists>n. evs = [Notify tk n]))))"

text \<open>The state file can be loaded, and it agrees with the mapping in memory on a ticker.\<close>

definition agree :: "string \<Rightarrow> state \<times> sfile \<Rightarrow> bool" where
  "agree tk w = (loadable (snd w) \<and> stored (snd w) tk = map_of (fst w) tk)"

text \<open>
  Concrete collaborators for the examples: a Monday noon clock, a dispatcher and a
  disk that answer, no news, no LLM client, and a price provider that is down; the
  number formats are fixed placeholders (no statement below reads a message text) and
  \<^verbatim>\<open>str.strip\<close> is \<open>ascii_strip\<close> (the examples have no headlines).
  \<open>priced\<close> lets the provider answer with an open and a last price. \<open>refusing\<close> adds an
  LLM client whose answer is the JSON object \<^verbatim>\<open>{"send_alert": false}\<close>.
\<close>

definition quiet_env :: env where
  "quiet_env =
     \<lparr>py_int = digits_int,
      now_tz = (\<lambda>zone. Inr (monday_at 12 0 0 0)),
      get_open_and_last = (\<lambda>tk. Inl RequestException),
      enrich = (\<lambda>tk. Inr ([], None)),
      agent_headlines = (\<lambda>tk. Inr []),
      notify_ntfy = (\<lambda>n. None),
      write_text = (\<lambda>m. Written),
      fmt2 = (\<lambda>r. ''0.00''),
      fmt_signed2 = (\<lambda>r. ''+0.00''),
      client = None,
      json_loads = (\<lambda>s. Inl ValueError),
      py_str = (\<lambda>v. ''object''),
      py_strip = ascii_strip\<rparr>"

definition priced :: "real \<Rightarrow> real \<Rightarrow> env" where
  "priced open_px last_px = quiet_env\<lparr>get_open_and_last := (\<lambda>tk. Inr (open_px, last_px))\<rparr>"

definition refusal_text :: string where
  "refusal_text = ''{'' @ [CHR 0x22] @ ''send_alert'' @ [CHR 0x22] @ '': false}''"

definition refusing :: "env \<Rightarrow> env" where
  "refusing e =
     e\<lparr>client := Some (\<lambda>q. Inr (Some refusal_text)),
       json_loads := (\<lambda>s. if s = refusal_text then Inr (JObj [(''send_alert'', JBool False)])
                           else Inl ValueError)\<rparr>"

definition no_tests :: test_config where
  "no_tests = \<lparr>t_enabled = False, bypass_market_hours = False,
               force_run_outside_hours = False, force_delta_pct = None, dry_run = False\<rparr>"

definition demo_cfg :: run_cfg where
  "demo_cfg = \<lparr>tickers = [''AAPL''], threshold = 1, market_hours_cfg = nyse_cfg,
               test_cfg = no_tests, news_on = False\<rparr>"

text \<open>
  An HTTP layer that is a fixed point at a URL: the URL is scheme-normalized and off
  the Google hosts, and requesting it ends, with no consent hop on the way, at that
  same URL, which the resolver accepts as it is.
\<close>

definition http_stable :: "urllib \<Rightarrow> string \<Rightarrow> bool" where
  "http_stable lib y =
     (y \<noteq> [] \<and> ensure_https y = y
      \<and> \<not> contains ''google.com'' y \<and> \<not> contains ''google.'' y
      \<and> (\<exists>p. urlparse lib y = Inr p \<and> \<not> contains ''news.google.'' (u_netloc p)
             \<and> \<not> contains ''consent.google.'' (u_netloc p))
      \<and> (\<exists>r. requests_get lib y = Inr r \<and> first_consent lib (r_history r) = Inr None
             \<and> r_url r = y))"

text \<open>
  An item that the loop of \<^verbatim>\<open>_format_headlines\<close> does not skip, and the URL its
  entry is filed under.
\<close>

definition usable :: "urllib \<Rightarrow> headline \<Rightarrow> bool" where
  "usable lib it =
     (str_strip lib (or_else (h_title it) []) \<noteq> [] \<and> item_url lib it \<noteq> [])"

definition canonical :: "urllib \<Rightarrow> headline \<Rightarrow> string" where
  "canonical lib it = resolve_or_raw lib (item_url lib it)"

text \<open>The two lines of the entry of an item filed under the URL \<open>c\<close>.\<close>

definition entry_of :: "urllib \<Rightarrow> headline \<Rightarrow> string \<Rightarrow> string list" where
  "entry_of lib it c =
     [bullet_line (str_strip lib (or_else (h_title it) [])) c
        (str_strip lib (or_else (h_source it) [])),
      link_line c]"

text \<open>
  A library for the examples. \<open>simple_urlparse\<close> follows \<^verbatim>\<open>urllib.parse.urlsplit\<close> on
  http and https URLs: scheme, network location up to the next slash, question mark or
  hash, path, query, fragment, and the ValueError on a network location with one
  square bracket only. The HTTP layer answers from a table of responses and raises for
  every other URL; no pattern matches and nothing is unquoted or stripped (the
  examples have no query parameters of a Google host, no percent escapes and no
  tracking parameters); \<^verbatim>\<open>str.strip\<close> is \<open>ascii_strip\<close> (the examples are ASCII
  strings). \<open>lands_on u final\<close> is the response to a request for \<open>u\<close> that
  ends at \<open>final\<close> with an empty body, after one redirect when the two differ.
\<close>

definition simple_urlparse :: "string \<Rightarrow> exn + parsed" where
  "simple_urlparse u =
     (let sch = (if prefix ''https:'' u then ''https'' else if prefix ''http:'' u then ''http''
                 else []);
          rest = (if sch = [] then u else drop (length sch + 1) u);
          has_netloc = prefix ''//'' rest;
          after = (if has_netloc then drop 2 rest else rest);
          netloc = (if has_netloc
                    then takeWhile (\<lambda>c. c \<notin> {CHR ''/'', CHR ''?'', CHR ''#''}) after else []);
          rest2 = (if has_netloc
                   then dropWhile (\<lambda>c. c \<notin> {CHR ''/'', CHR ''?'', CHR ''#''}) after else after);
          no_frag = takeWhile (\<lambda>c. c \<noteq> CHR ''#'') rest2;
          frag = drop 1 (dropWhile (\<lambda>c. c \<noteq> CHR ''#'') rest2);
          pth = takeWhile (\<lambda>c. c \<noteq> CHR ''?'') no_frag;
          qry = drop 1 (dropWhile (\<lambda>c. c \<noteq> CHR ''?'') no_frag)
      in if (CHR ''['' \<in> set netloc) \<noteq> (CHR '']'' \<in> set netloc) then Inl ValueError
         else Inr \<lparr>u_scheme = sch, u_netloc = netloc, u_path = pth, u_params = [],
                   u_query = qry, u_fragment = frag\<rparr>)"

definition simple_urlunparse :: "parsed \<Rightarrow> string" where
  "simple_urlunparse p =
     (if u_scheme p = [] then [] else u_scheme p @ '':'')
       @ (if u_netloc p = [] then [] else ''//'' @ u_netloc p)
       @ u_path p
       @ (if u_query p = [] then [] else ''?'' @ u_query p)
       @ (if u_fragment p = [] then [] else ''#'' @ u_fragment p)"

definition table_lib :: "(string \<times> response) list \<Rightarrow> urllib" where
  "table_lib responses =
     \<lparr>urlparse = simple_urlparse,
      urlunparse = simple_urlunparse,
      parse_qs = (\<lambda>q. []),
      unquote = (\<lambda>s. s),
      requests_get = (\<lambda>u. case map_of responses u of
                              None \<Rightarrow> Inl RequestException | Some r \<Rightarrow> Inr r),
      re_canonical = (\<lambda>h. None),
      re_refresh = (\<lambda>h. None),
      re_location = (\<lambda>h. None),
      re_url_param = (\<lambda>h. None),
      re_findall_urls = (\<lambda>h. []),
      re_google_host = (\<lambda>c. False),
      re_sub_tracking = (\<lambda>q. q),
      str_strip = ascii_strip\<rparr>"

definition lands_on :: "string \<Rightarrow> string \<Rightarrow> response" where
  "lands_on u final =
     \<lparr>r_history = (if u = final then [] else [\<lparr>location = Some final, hop_url = u\<rparr>]),
      r_url = final, r_text = Inr []\<rparr>"

text \<open>
  Four HTTP layers: one where \<^verbatim>\<open>https://example.com/a\<close> answers for itself; one where
  a request for \<^verbatim>\<open>https://a.example/1\<close> ends at \<^verbatim>\<open>https://a.example/2\<close> and a
  request for that ends at \<^verbatim>\<open>https://a.example/3\<close>; one where a short link redirects
  to a Google consent page whose \<^verbatim>\<open>continue\<close> parameter names an article, and the
  article's own URL redirects to its www host; and one where two feed links end at the
  same article.
\<close>

definition steady_lib :: urllib where
  "steady_lib = table_lib [(''https://example.com/a'',
                            lands_on ''https://example.com/a'' ''https://example.com/a'')]"

definition hopping_lib :: urllib where
  "hopping_lib = table_lib [(''https://a.example/1'',
                             lands_on ''https://a.example/1'' ''https://a.example/2''),
                            (''https://a.example/2'',
                             lands_on ''https://a.example/2'' ''https://a.example/3'')]"

definition consent_page :: string where
  "consent_page = ''https://consent.google.com/ml?continue=https://paper.example/story''"

definition consent_lib :: urllib where
  "consent_lib =
     (table_lib [(''https://short.example/1'',
                  \<lparr>r_history = [\<lparr>location = Some consent_page,
                                 hop_url = ''https://short.example/1''\<rparr>],
                   r_url = consent_page, r_text = Inr []\<rparr>),
                 (''https://paper.example/story'',
                  lands_on ''https://paper.example/story'' ''https://www.paper.example/story'')])
       \<lparr>parse_qs := (\<lambda>q. if q = ''continue=https://paper.example/story''
                          then [(''continue'', [''https://paper.example/story''])] else [])\<rparr>"

definition feed_lib :: urllib where
  "feed_lib = table_lib [(''https://feed.example/1'',
                          lands_on ''https://feed.example/1'' ''https://paper.example/story''),
                         (''https://feed.example/2'',
                          lands_on ''https://feed.example/2'' ''https://paper.example/story'')]"

text \<open>A headline dict with a title and a url only.\<close>

definition plain_item :: "string \<Rightarrow> string \<Rightarrow> headline" where
  "plain_item title url = \<lparr>h_title = Some title, h_source = None, h_url = Some url, h_link = None\<rparr>"

section \<open>The classifier\<close>

lemma classify_cases: "classify p t = ''up'' \<or> classify p t = ''down'' \<or> classify p t = ''none''"
  by (simp add: classify_def)

text \<open>
  Claim C4. For every threshold \<open>t > 0\<close> and every delta \<open>d\<close> the classifier answers
  up exactly when \<open>d \<ge> t\<close>, down exactly when \<open>d \<le> -t\<close> and none exactly when
  \<open>|d| < t\<close>; both boundaries are inclusive.
\<close>

theorem classify_boundaries:
  assumes "0 < t"
  shows "(classify d t = ''up'' \<longleftrightarrow> t \<le> d)
       \<and> (classify d t = ''down'' \<longleftrightarrow> d \<le> - t)
       \<and> (classify d t = ''none'' \<longleftrightarrow> \<bar>d\<bar> < t)
       \<and> classify t t = ''up''
       \<and> classify (- t) t = ''down''"
  using assms by (auto simp: classify_def)

theorem classify_boundaries_witness:
  "(0::real) < 1
   \<and> classify (3/2) 1 = ''up'' \<and> classify (-1) 1 = ''down'' \<and> classify (3/10) 1 = ''none''
   \<and> classify 1 1 = ''up''"
  using classify_boundaries [of 1 "3/2"] classify_boundaries [of 1 "-1"]
    classify_boundaries [of 1 "3/10"]
  by simp

section \<open>The corridor state machine in both orchestrators\<close>

subsection \<open>One ticker\<close>

lemma step_shape_idle: "step_shape e tk w (w, [], ex)"
  by (simp add: step_shape_def)

lemma step_shape_failed: "step_shape e tk w (w, [Notify tk n], ex)"
  by (simp add: step_shape_def)

lemma step_shape_reset: "step_shape e tk w (set_and_save e tk ''none'' w [])"
  unfolding step_shape_def by blast

lemma step_shape_alert: "step_shape e tk w (set_and_save e tk (classify p t) w [Notify tk n])"
  unfolding step_shape_def using classify_cases [of p t] by blast

lemmas step_shape_intros = step_shape_idle step_shape_failed step_shape_reset step_shape_alert

lemma ticker_body_shape: "step_shape e tk w (ticker_body e cfg tk w)"
  unfolding ticker_body_def Let_def
  by (simp add: step_shape_intros split: sum.splits prod.splits option.splits)

lemma agent_ticker_body_shape: "step_shape e tk w (agent_ticker_body e cfg tk w)"
  unfolding agent_ticker_body_def Let_def
  by (simp add: step_shape_intros split: sum.splits prod.splits option.splits)

lemma set_and_save_result:
  "set_and_save e tk v w evs =
     ((AList.update tk (JStr v) (fst w),
       fst (save_state (write_text e) (snd w) (AList.update tk (JStr v) (fst w)))),
      evs @ [SetState tk v, SaveState (AList.update tk (JStr v) (fst w))],
      snd (save_state (write_text e) (snd w) (AList.update tk (JStr v) (fst w))))"
  by (simp add: set_and_save_def Let_def split: prod.splits)

text \<open>When the write returns, the file is the mapping with the assignment made.\<close>

lemma set_and_save_written:
  assumes "write_text e (AList.update tk (JStr v) (fst w)) = Written"
  shows "set_and_save e tk v w evs =
     ((AList.update tk (JStr v) (fst w), Doc (JObj (AList.update tk (JStr v) (fst w)))),
      evs @ [SetState tk v, SaveState (AList.update tk (JStr v) (fst w))],
      None)"
  by (simp add: set_and_save_result save_state_def assms)

text \<open>
  When the write raises, the mapping in memory keeps the assignment and the file is
  what the failed write left: the per-ticker \<^verbatim>\<open>except\<close> logs the exception.
\<close>

lemma set_and_save_failed:
  assumes "write_text e (AList.update tk (JStr v) (fst w)) = Failed x left"
  shows "set_and_save e tk v w evs =
     ((AList.update tk (JStr v) (fst w), (case left of None \<Rightarrow> snd w | Some g \<Rightarrow> g)),
      evs @ [SetState tk v, SaveState (AList.update tk (JStr v) (fst w))],
      Some x)"
  by (simp add: set_and_save_result save_state_def assms)

lemma loadable_Doc [simp]: "loadable (Doc d)"
  by (simp add: loadable_def load_state_def path_exists_def read_and_loads_def
      split: json.splits)

lemma stored_Doc [simp]: "stored (Doc (JObj m)) tk = map_of m tk"
  by (simp add: stored_def loaded_def load_state_def path_exists_def read_and_loads_def)

lemma stored_Some_loadable: "stored f tk = Some v \<Longrightarrow> loadable f"
  by (simp add: stored_def loaded_def loadable_def split: sum.splits)

lemma dispatches_simps [simp]:
  "dispatches tk [] = 0"
  "dispatches tk (Notify t n # evs) = (if t = tk then 1 else 0) + dispatches tk evs"
  "dispatches tk (SetState t v # evs) = dispatches tk evs"
  "dispatches tk (SaveState m # evs) = dispatches tk evs"
  "dispatches tk (LogError t x # evs) = dispatches tk evs"
  "dispatches tk (evs @ evs') = dispatches tk evs + dispatches tk evs'"
  by (simp_all add: dispatches_def)

text \<open>
  With the writes returning, processing another ticker leaves a ticker's entry alone
  and dispatches nothing for it.
\<close>

lemma step_frame:
  assumes "step_shape e t w r" and "catch_ticker t r = (w', evs)" and "t \<noteq> tk" and "agree tk w"
    and wr: "\<And>m. write_text e m = Written"
  shows "agree tk w' \<and> dispatches tk evs = 0 \<and> map_of (fst w') tk = map_of (fst w) tk"
  using assms(1-4) unfolding step_shape_def catch_ticker_def agree_def
  by (auto simp: set_and_save_written [OF wr] update_conv' split: option.splits)

lemma step_replay_saved:
  assumes "step_shape e t w r" and "catch_ticker t r = (w', evs)"
  shows "saved_after_write (fst w) (evs @ rest) = saved_after_write (fst w') rest"
  using assms unfolding step_shape_def catch_ticker_def
  by (auto simp: set_and_save_result split: option.splits)

lemma step_replay_file:
  assumes "step_shape e t w r" and "catch_ticker t r = (w', evs)"
  shows "file_after (write_text e) (snd w) (evs @ rest) = file_after (write_text e) (snd w') rest"
  using assms unfolding step_shape_def catch_ticker_def
  by (auto simp: set_and_save_result split: option.splits)

lemma state_get_prev_of: "state_get m tk = prev_of (map_of m tk)"
  by (simp add: state_get_def prev_of_def)

text \<open>With every collaborator answering, the body is the transition table.\<close>

lemma ticker_body_observed:
  assumes "observes e cfg tk d"
  shows "\<exists>n. ticker_body e cfg tk w =
           (if corridor_fires (map_of (fst w) tk) d then set_and_save e tk d w [Notify tk n]
            else if d = ''none'' \<and> prev_of (map_of (fst w) tk) \<noteq> JStr ''none''
              then set_and_save e tk ''none'' w []
            else (w, [], None))"
proof -
  from assms obtain open_px last_px r where
    px: "get_open_and_last e tk = Inr (open_px, last_px)" "open_px \<noteq> 0"
    and d: "classify (fst (apply_forced_delta (test_cfg cfg) open_px last_px)) (threshold cfg) = d"
    and news: "(if news_on cfg then enrich e tk else Inr ([], None)) = Inr r"
    and ok: "\<And>n. notify_ntfy e n = None"
    unfolding observes_def by blast
  obtain pct lp where fd: "apply_forced_delta (test_cfg cfg) open_px last_px = (pct, lp)"
    by (cases "apply_forced_delta (test_cfg cfg) open_px last_px")
  obtain hb cu where r: "r = (hb, cu)" by (cases r)
  from d fd have d': "classify pct (threshold cfg) = d" by simp
  show ?thesis
    unfolding ticker_body_def
    using news
    by (auto simp add: px fd d' r ok state_get_prev_of corridor_fires_def Let_def)
qed

lemma agent_ticker_body_observed:
  assumes "agent_observes e cfg tk d"
  shows "\<exists>n. agent_ticker_body e cfg tk w =
           (if corridor_fires (map_of (fst w) tk) d then set_and_save e tk d w [Notify tk n]
            else if d = ''none'' \<and> prev_of (map_of (fst w) tk) \<noteq> JStr ''none''
              then set_and_save e tk ''none'' w []
            else (w, [], None))"
proof -
  from assms obtain open_px last_px hs where
    px: "get_open_and_last e tk = Inr (open_px, last_px)"
    and d: "classify (pct_change open_px last_px) (threshold cfg) = d"
    and news: "(if news_on cfg then agent_headlines e tk else Inr []) = Inr hs"
    and send: "d = ''none'' \<or> fst (agent_summarize_and_decide e tk open_px last_px
                  (pct_change open_px last_px) hs (threshold cfg))"
    and ok: "\<And>n. notify_ntfy e n = None"
    unfolding agent_observes_def by blast
  obtain s t b c where dec: "agent_summarize_and_decide e tk open_px last_px
                  (pct_change open_px last_px) hs (threshold cfg) = (s, t, b, c)"
    by (cases "agent_summarize_and_decide e tk open_px last_px
                  (pct_change open_px last_px) hs (threshold cfg)") auto
  from send dec have s: "d = ''none'' \<or> s" by simp
  show ?thesis
    unfolding agent_ticker_body_def
    using news s
    by (auto simp add: px d dec ok state_get_prev_of corridor_fires_def Let_def)
qed

lemma own_step:
  assumes body: "r = (if corridor_fires (map_of (fst w) tk) d then set_and_save e tk d w [Notify tk n]
            else if d = ''none'' \<and> prev_of (map_of (fst w) tk) \<noteq> JStr ''none''
              then set_and_save e tk ''none'' w []
            else (w, [], None))"
    and wr: "\<And>m. write_text e m = Written"
    and ag: "agree tk w"
    and res: "catch_ticker tk r = (w', evs)"
  shows "agree tk w' \<and> dispatches tk evs = (if corridor_fires (map_of (fst w) tk) d then 1 else 0)
         \<and> map_of (fst w') tk = corridor_next (map_of (fst w) tk) d"
  using res ag unfolding body catch_ticker_def agree_def corridor_next_def
  by (auto simp: set_and_save_written [OF wr] update_conv' split: if_splits)

lemma corridor_settled:
  "\<not> corridor_fires (corridor_next st d) d"
  "corridor_next (corridor_next st d) d = corridor_next st d"
  by (auto simp: corridor_fires_def corridor_next_def prev_of_def split: option.splits)

lemma corridor_writes_next: "corridor_writes st d \<Longrightarrow> corridor_next st d = Some (JStr d)"
  by (auto simp: corridor_writes_def corridor_next_def)

text \<open>
  What an observed breakout or reset leaves behind, with every collaborator answering:
  the mapping with the direction assigned, the file holding that mapping, and the
  assignment and its save as the last two effects.
\<close>

lemma observed_write:
  assumes body: "r = (if corridor_fires (map_of (fst w) tk) d then set_and_save e tk d w [Notify tk n]
            else if d = ''none'' \<and> prev_of (map_of (fst w) tk) \<noteq> JStr ''none''
              then set_and_save e tk ''none'' w []
            else (w, [], None))"
    and wr: "\<And>m. write_text e m = Written"
    and due: "corridor_writes (map_of (fst w) tk) d"
  shows "\<exists>evs0. catch_ticker tk r =
           ((AList.update tk (JStr d) (fst w), Doc (JObj (AList.update tk (JStr d) (fst w)))),
            evs0 @ [SetState tk d, SaveState (AList.update tk (JStr d) (fst w))])"
proof (cases "corridor_fires (map_of (fst w) tk) d")
  case True
  then have "catch_ticker tk r =
           ((AList.update tk (JStr d) (fst w), Doc (JObj (AList.update tk (JStr d) (fst w)))),
            [Notify tk n] @ [SetState tk d, SaveState (AList.update tk (JStr d) (fst w))])"
    unfolding body catch_ticker_def by (simp add: set_and_save_written [OF wr])
  then show ?thesis by blast
next
  case False
  with due have d: "d = ''none''" "prev_of (map_of (fst w) tk) \<noteq> JStr ''none''"
    by (simp_all add: corridor_writes_def)
  from False d have "catch_ticker tk r =
           ((AList.update tk (JStr d) (fst w), Doc (JObj (AList.update tk (JStr d) (fst w)))),
            [] @ [SetState tk d, SaveState (AList.update tk (JStr d) (fst w))])"
    unfolding body catch_ticker_def by (simp add: set_and_save_written [OF wr])
  then show ?thesis by blast
qed

text \<open>
  The entry of the answer decides: with a \<^verbatim>\<open>send_alert\<close> entry in the answer of the
  LLM client, the composer's decision is the truth value of the entry. An up or down
  observation that the client refuses leaves the ticker as it was.
\<close>

lemma advisory_entry_decides:
  assumes "advisory_send_alert e tk a b d hs t = Some v"
  shows "fst (agent_summarize_and_decide e tk a b d hs t) = truthy v"
  using assms
  by (auto simp: advisory_send_alert_def agent_summarize_and_decide_def Let_def
      split: option.splits sum.splits json.splits)

lemma agent_ticker_body_refused:
  assumes "agent_refused e cfg tk"
  shows "agent_ticker_body e cfg tk w = (w, [], None)"
proof -
  from assms obtain open_px last_px hs v where
    px: "get_open_and_last e tk = Inr (open_px, last_px)"
    and d: "classify (pct_change open_px last_px) (threshold cfg) \<noteq> ''none''"
    and news: "(if news_on cfg then agent_headlines e tk else Inr []) = Inr hs"
    and ans: "advisory_send_alert e tk open_px last_px (pct_change open_px last_px) hs
                (threshold cfg) = Some v"
    and no: "\<not> truthy v"
    unfolding agent_refused_def by blast
  obtain s t b c where dec: "agent_summarize_and_decide e tk open_px last_px
                  (pct_change open_px last_px) hs (threshold cfg) = (s, t, b, c)"
    by (cases "agent_summarize_and_decide e tk open_px last_px
                  (pct_change open_px last_px) hs (threshold cfg)") auto
  from advisory_entry_decides [OF ans] dec no have s: "\<not> s" by simp
  show ?thesis
    unfolding agent_ticker_body_def
    using news s d
    by (auto simp add: px dec Let_def)
qed

subsection \<open>The loop over the tickers\<close>

lemma run_tickers_corridor:
  assumes own: "\<And>w w' evs. agree tk w \<Longrightarrow> step tk w = (w', evs) \<Longrightarrow>
                  agree tk w' \<and> dispatches tk evs = (if corridor_fires (map_of (fst w) tk) d then 1 else 0)
                  \<and> map_of (fst w') tk = corridor_next (map_of (fst w) tk) d"
    and other: "\<And>t w w' evs. t \<noteq> tk \<Longrightarrow> agree tk w \<Longrightarrow> step t w = (w', evs) \<Longrightarrow>
                  agree tk w' \<and> dispatches tk evs = 0 \<and> map_of (fst w') tk = map_of (fst w) tk"
    and "agree tk w" and "run_tickers step tks w = (w', evs)"
  shows "agree tk w'
         \<and> dispatches tk evs = (if tk \<in> set tks \<and> corridor_fires (map_of (fst w) tk) d then 1 else 0)
         \<and> map_of (fst w') tk = (if tk \<in> set tks then corridor_next (map_of (fst w) tk) d
                                   else map_of (fst w) tk)"
  using assms(3,4)
proof (induction tks arbitrary: w w' evs)
  case Nil
  then show ?case by simp
next
  case (Cons t tks)
  obtain w1 evs1 where s1: "step t w = (w1, evs1)" by (cases "step t w")
  obtain w2 evs2 where s2: "run_tickers step tks w1 = (w2, evs2)" by (cases "run_tickers step tks w1")
  from Cons.prems(2) s1 s2 have eq: "w' = w2" "evs = evs1 @ evs2" by simp_all
  show ?case
  proof (cases "t = tk")
    case True
    from own [OF Cons.prems(1) s1 [unfolded True]]
    have a1: "agree tk w1"
      and d1: "dispatches tk evs1 = (if corridor_fires (map_of (fst w) tk) d then 1 else 0)"
      and m1: "map_of (fst w1) tk = corridor_next (map_of (fst w) tk) d" by simp_all
    from Cons.IH [OF a1 s2] show ?thesis
      unfolding eq using a1 d1 m1 True by (simp add: corridor_settled)
  next
    case False
    from other [OF False Cons.prems(1) s1]
    have a1: "agree tk w1" and d1: "dispatches tk evs1 = 0"
      and m1: "map_of (fst w1) tk = map_of (fst w) tk" by simp_all
    from Cons.IH [OF a1 s2] show ?thesis
      unfolding eq using a1 d1 m1 False by simp
  qed
qed

lemma run_tickers_frame:
  assumes step: "\<And>t w w' evs. agree tk w \<Longrightarrow> step t w = (w', evs) \<Longrightarrow>
                  agree tk w' \<and> dispatches tk evs = 0 \<and> map_of (fst w') tk = map_of (fst w) tk"
    and "agree tk w" and "run_tickers step tks w = (w', evs)"
  shows "agree tk w' \<and> dispatches tk evs = 0 \<and> map_of (fst w') tk = map_of (fst w) tk"
  using assms(2,3)
proof (induction tks arbitrary: w w' evs)
  case Nil
  then show ?case by simp
next
  case (Cons t tks)
  obtain w1 evs1 where s1: "step t w = (w1, evs1)" by (cases "step t w")
  obtain w2 evs2 where s2: "run_tickers step tks w1 = (w2, evs2)" by (cases "run_tickers step tks w1")
  from Cons.prems(2) s1 s2 have eq: "w' = w2" "evs = evs1 @ evs2" by simp_all
  from step [OF Cons.prems(1) s1]
  have a1: "agree tk w1" and d1: "dispatches tk evs1 = 0"
    and m1: "map_of (fst w1) tk = map_of (fst w) tk" by simp_all
  from Cons.IH [OF a1 s2] show ?case
    unfolding eq using d1 m1 by simp
qed

subsection \<open>One run, and successive runs\<close>

lemma load_state_loaded: "loadable f \<Longrightarrow> load_state f = Inr (loaded f)"
  by (simp add: loaded_def loadable_def split: sum.splits)

lemma agree_loaded: "loadable f \<Longrightarrow> agree tk (loaded f, f)"
  by (simp add: agree_def stored_def)

lemma run_once_corridor:
  assumes l: "loadable f" and g: "gate_open e cfg" and o: "observes e cfg tk d"
  shows "\<exists>f' evs. run_once e cfg f = Inr (f', evs) \<and> loadable f'
           \<and> dispatches tk evs = (if tk \<in> set (tickers cfg) \<and> corridor_fires (stored f tk) d then 1 else 0)
           \<and> stored f' tk = (if tk \<in> set (tickers cfg) then corridor_next (stored f tk) d
                              else stored f tk)"
proof -
  from o have wr: "\<And>m. write_text e m = Written" unfolding observes_def by blast
  obtain w' evs where rt: "run_tickers (process_ticker e cfg) (tickers cfg) (loaded f, f) = (w', evs)"
    by (cases "run_tickers (process_ticker e cfg) (tickers cfg) (loaded f, f)")
  have own: "agree tk w1 \<Longrightarrow> process_ticker e cfg tk w1 = (w2, evs1) \<Longrightarrow>
      agree tk w2 \<and> dispatches tk evs1 = (if corridor_fires (map_of (fst w1) tk) d then 1 else 0)
      \<and> map_of (fst w2) tk = corridor_next (map_of (fst w1) tk) d" for w1 w2 evs1
  proof -
    assume a: "agree tk w1" and s: "process_ticker e cfg tk w1 = (w2, evs1)"
    from ticker_body_observed [OF o, of w1] obtain n where
      b: "ticker_body e cfg tk w1 =
           (if corridor_fires (map_of (fst w1) tk) d then set_and_save e tk d w1 [Notify tk n]
            else if d = ''none'' \<and> prev_of (map_of (fst w1) tk) \<noteq> JStr ''none''
              then set_and_save e tk ''none'' w1 []
            else (w1, [], None))" by blast
    from s have c: "catch_ticker tk (ticker_body e cfg tk w1) = (w2, evs1)"
      by (simp add: process_ticker_def)
    from own_step [OF b wr a c] show ?thesis .
  qed
  have other: "t \<noteq> tk \<Longrightarrow> agree tk w1 \<Longrightarrow> process_ticker e cfg t w1 = (w2, evs1) \<Longrightarrow>
      agree tk w2 \<and> dispatches tk evs1 = 0 \<and> map_of (fst w2) tk = map_of (fst w1) tk" for t w1 w2 evs1
  proof -
    assume t: "t \<noteq> tk" and a: "agree tk w1" and s: "process_ticker e cfg t w1 = (w2, evs1)"
    from s have c: "catch_ticker t (ticker_body e cfg t w1) = (w2, evs1)"
      by (simp add: process_ticker_def)
    from step_frame [OF ticker_body_shape c t a wr] show ?thesis .
  qed
  from run_tickers_corridor [of tk "process_ticker e cfg" d, OF own other agree_loaded [OF l] rt]
  have res: "agree tk w'"
    "dispatches tk evs = (if tk \<in> set (tickers cfg) \<and> corridor_fires (map_of (loaded f) tk) d then 1 else 0)"
    "map_of (fst w') tk = (if tk \<in> set (tickers cfg) then corridor_next (map_of (loaded f) tk) d
                                   else map_of (loaded f) tk)"
    by simp_all
  from g obtain n b where
    clock: "now_tz e (or_else (timezone (market_hours_cfg cfg))
               (or_else (tz (market_hours_cfg cfg)) ''America/New_York'')) = Inr n"
    and mh: "is_market_hours (py_int e) (now_tz e) (market_hours_cfg cfg) = Inr b"
    and inside: "b \<or> (t_enabled (test_cfg cfg) \<and> bypass_market_hours (test_cfg cfg))
                      \<or> force_run_outside_hours (test_cfg cfg)"
    unfolding gate_open_def Let_def by blast
  have "run_once e cfg f = Inr (snd w', evs)"
    unfolding run_once_def Let_def using inside
    by (simp add: clock mh load_state_loaded [OF l] rt)
  with res show ?thesis
    by (auto simp: agree_def stored_def)
qed

lemma run_agent_once_corridor:
  assumes l: "loadable f" and g: "agent_gate_open e cfg" and o: "agent_observes e cfg tk d"
  shows "\<exists>f' evs. run_agent_once e cfg f = Inr (f', evs) \<and> loadable f'
           \<and> dispatches tk evs = (if tk \<in> set (tickers cfg) \<and> corridor_fires (stored f tk) d then 1 else 0)
           \<and> stored f' tk = (if tk \<in> set (tickers cfg) then corridor_next (stored f tk) d
                              else stored f tk)"
proof -
  from o have wr: "\<And>m. write_text e m = Written" unfolding agent_observes_def by blast
  obtain w' evs where rt: "run_tickers (agent_process_ticker e cfg) (tickers cfg) (loaded f, f) = (w', evs)"
    by (cases "run_tickers (agent_process_ticker e cfg) (tickers cfg) (loaded f, f)")
  have own: "agree tk w1 \<Longrightarrow> agent_process_ticker e cfg tk w1 = (w2, evs1) \<Longrightarrow>
      agree tk w2 \<and> dispatches tk evs1 = (if corridor_fires (map_of (fst w1) tk) d then 1 else 0)
      \<and> map_of (fst w2) tk = corridor_next (map_of (fst w1) tk) d" for w1 w2 evs1
  proof -
    assume a: "agree tk w1" and s: "agent_process_ticker e cfg tk w1 = (w2, evs1)"
    from agent_ticker_body_observed [OF o, of w1] obtain n where
      b: "agent_ticker_body e cfg tk w1 =
           (if corridor_fires (map_of (fst w1) tk) d then set_and_save e tk d w1 [Notify tk n]
            else if d = ''none'' \<and> prev_of (map_of (fst w1) tk) \<noteq> JStr ''none''
              then set_and_save e tk ''none'' w1 []
            else (w1, [], None))" by blast
    from s have c: "catch_ticker tk (agent_ticker_body e cfg tk w1) = (w2, evs1)"
      by (simp add: agent_process_ticker_def)
    from own_step [OF b wr a c] show ?thesis .
  qed
  have other: "t \<noteq> tk \<Longrightarrow> agree tk w1 \<Longrightarrow> agent_process_ticker e cfg t w1 = (w2, evs1) \<Longrightarrow>
      agree tk w2 \<and> dispatches tk evs1 = 0 \<and> map_of (fst w2) tk = map_of (fst w1) tk" for t w1 w2 evs1
  proof -
    assume t: "t \<noteq> tk" and a: "agree tk w1" and s: "agent_process_ticker e cfg t w1 = (w2, evs1)"
    from s have c: "catch_ticker t (agent_ticker_body e cfg t w1) = (w2, evs1)"
      by (simp add: agent_process_ticker_def)
    from step_frame [OF agent_ticker_body_shape c t a wr] show ?thesis .
  qed
  from run_tickers_corridor [of tk "agent_process_ticker e cfg" d, OF own other agree_loaded [OF l] rt]
  have res: "agree tk w'"
    "dispatches tk evs = (if tk \<in> set (tickers cfg) \<and> corridor_fires (map_of (loaded f) tk) d then 1 else 0)"
    "map_of (fst w') tk = (if tk \<in> set (tickers cfg) then corridor_next (map_of (loaded f) tk) d
                                   else map_of (loaded f) tk)"
    by simp_all
  from g obtain n where
    clock: "now_tz e (get_default (timezone (market_hours_cfg cfg)) ''America/New_York'') = Inr n"
    and mh: "(if get_default (pause_on_closed (market_hours_cfg cfg)) True
                 \<and> \<not> bypass_market_hours (test_cfg cfg)
             then within_market_hours (py_int e) (now_tz e) (market_hours_cfg cfg) = Inr True
             else True)"
    unfolding agent_gate_open_def Let_def by blast
  have "run_agent_once e cfg f = Inr (snd w', evs)"
    unfolding run_agent_once_def Let_def using mh
    by (simp add: clock load_state_loaded [OF l] rt split: if_splits)
  with res show ?thesis
    by (auto simp: agree_def stored_def)
qed

text \<open>
  A run of the agent in which the LLM client refuses the up or down observation of a
  ticker: nothing is dispatched for the ticker and its stored value stays, whatever it
  was.
\<close>

lemma run_agent_once_refused:
  assumes l: "loadable f" and g: "agent_gate_open e cfg" and r: "agent_refused e cfg tk"
  shows "\<exists>f' evs. run_agent_once e cfg f = Inr (f', evs)
           \<and> dispatches tk evs = 0 \<and> stored f' tk = stored f tk"
proof -
  from r have wr: "\<And>m. write_text e m = Written" unfolding agent_refused_def by blast
  obtain w' evs where rt: "run_tickers (agent_process_ticker e cfg) (tickers cfg) (loaded f, f) = (w', evs)"
    by (cases "run_tickers (agent_process_ticker e cfg) (tickers cfg) (loaded f, f)")
  have step: "agree tk w1 \<Longrightarrow> agent_process_ticker e cfg t w1 = (w2, evs1) \<Longrightarrow>
      agree tk w2 \<and> dispatches tk evs1 = 0 \<and> map_of (fst w2) tk = map_of (fst w1) tk" for t w1 w2 evs1
  proof -
    assume a: "agree tk w1" and s: "agent_process_ticker e cfg t w1 = (w2, evs1)"
    show ?thesis
    proof (cases "t = tk")
      case True
      with s a show ?thesis
        by (simp add: agent_process_ticker_def agent_ticker_body_refused [OF r] catch_ticker_def)
    next
      case False
      from s have c: "catch_ticker t (agent_ticker_body e cfg t w1) = (w2, evs1)"
        by (simp add: agent_process_ticker_def)
      from step_frame [OF agent_ticker_body_shape c False a wr] show ?thesis .
    qed
  qed
  from run_tickers_frame [of tk "agent_process_ticker e cfg", OF step agree_loaded [OF l] rt]
  have res: "agree tk w'" "dispatches tk evs = 0" "map_of (fst w') tk = map_of (loaded f) tk"
    by simp_all
  from g obtain n where
    clock: "now_tz e (get_default (timezone (market_hours_cfg cfg)) ''America/New_York'') = Inr n"
    and mh: "(if get_default (pause_on_closed (market_hours_cfg cfg)) True
                 \<and> \<not> bypass_market_hours (test_cfg cfg)
             then within_market_hours (py_int e) (now_tz e) (market_hours_cfg cfg) = Inr True
             else True)"
    unfolding agent_gate_open_def Let_def by blast
  have "run_agent_once e cfg f = Inr (snd w', evs)"
    unfolding run_agent_once_def Let_def using mh
    by (simp add: clock load_state_loaded [OF l] rt split: if_splits)
  with res show ?thesis
    by (auto simp: agree_def stored_def)
qed

lemma run_seq_corridor:
  assumes run: "\<And>e d f. loadable f \<Longrightarrow> gate e cfg \<Longrightarrow> obs e cfg tk d \<Longrightarrow>
      \<exists>f' evs. run e cfg f = Inr (f', evs) \<and> loadable f'
         \<and> dispatches tk evs = (if corridor_fires (stored f tk) d then 1 else 0)
         \<and> stored f' tk = corridor_next (stored f tk) d"
    and "polls gate obs cfg tk es ds" and "loadable f"
  shows "\<exists>f' evss. run_seq run es cfg f = Inr (f', evss)
           \<and> map (dispatches tk) evss = corridor_counts (stored f tk) ds
           \<and> stored f' tk = corridor_final (stored f tk) ds"
  using assms(2,3) unfolding polls_def
proof (induction es ds arbitrary: f rule: list_all2_induct)
  case Nil
  then show ?case by simp
next
  case (Cons e es d ds)
  from run [of f e d] Cons.hyps(1) Cons.prems obtain f1 evs1 where
    r1: "run e cfg f = Inr (f1, evs1)" and l1: "loadable f1"
    and d1: "dispatches tk evs1 = (if corridor_fires (stored f tk) d then 1 else 0)"
    and s1: "stored f1 tk = corridor_next (stored f tk) d" by blast
  from Cons.IH [OF l1] obtain f2 evss where
    r2: "run_seq run es cfg f1 = Inr (f2, evss)"
    and d2: "map (dispatches tk) evss = corridor_counts (stored f1 tk) ds"
    and s2: "stored f2 tk = corridor_final (stored f1 tk) ds" by blast
  show ?case
    by (simp add: r1 r2 d1 d2 s1 s2)
qed

lemma no_client_sends:
  assumes "client e = None" and "classify p t \<noteq> ''none''"
  shows "fst (agent_summarize_and_decide e tk a b p hs t)"
  using assms by (auto simp: agent_summarize_and_decide_def classify_def Let_def split: if_splits)

subsection \<open>The example collaborators\<close>

lemmas clock_simps = is_market_hours_def within_market_hours_def nyse_cfg_def parse_hhmm_def
  digits_int_def digit_val_def get_default_def or_else_def monday_at_def in_window_def
  replace_hm_def dt_le_def

lemmas demo_simps = demo_cfg_def priced_def quiet_env_def no_tests_def

lemma demo_gate: "gate_open (priced a b) demo_cfg"
  by (auto simp add: gate_open_def demo_simps clock_simps)

lemma demo_agent_gate: "agent_gate_open (priced a b) demo_cfg"
  by (simp add: agent_gate_open_def demo_simps clock_simps)

lemma demo_refusing_gate: "agent_gate_open (refusing (priced a b)) demo_cfg"
  by (simp add: agent_gate_open_def refusing_def demo_simps clock_simps)

lemma demo_observes:
  "a \<noteq> 0 \<Longrightarrow> observes (priced a b) demo_cfg tk (classify (pct_change a b) 1)"
  by (simp add: observes_def demo_simps apply_forced_delta_def)

lemma demo_agent_observes:
  "agent_observes (priced a b) demo_cfg tk (classify (pct_change a b) 1)"
  by (auto simp add: agent_observes_def demo_simps agent_summarize_and_decide_def classify_def)

lemma demo_dirs:
  "classify (pct_change 100 (203/2)) 1 = ''up''"
  "classify (pct_change 100 102) 1 = ''up''"
  "classify (pct_change 100 (1003/10)) 1 = ''none''"
  "classify (pct_change 100 (197/2)) 1 = ''down''"
  by (simp_all add: classify_def pct_change_def)

lemma demo_refused: "agent_refused (refusing (priced 100 (203/2))) demo_cfg tk"
  unfolding agent_refused_def
  by (rule exI [of _ 100], rule exI [of _ "203/2"], rule exI [of _ "[]"],
      rule exI [of _ "JBool False"])
     (simp add: refusing_def demo_simps advisory_send_alert_def refusal_text_def or_else_def
      classify_def pct_change_def)

lemma demo_stored:
  "stored Missing tk = None"
  "''AAPL'' \<in> set (tickers demo_cfg)"
  "loadable Missing"
  by (simp_all add: stored_def loaded_def loadable_def load_state_def path_exists_def
      demo_cfg_def)

text \<open>
  Claim C1, as amended. In \<^verbatim>\<open>run_once\<close>, and in \<^verbatim>\<open>run_agent_once\<close> whenever the
  composer's decision on an up or down observation is send (it always is without an LLM
  client: the conjunct before the last), with the state file loading and the price
  fetch, the enrichment, the dispatcher and the save answering: for a ticker of the
  list whose stored state is absent, the observed directions up, up, none, up dispatch
  for it once, not at all, not at all and once, and the directions up, down dispatch
  once each; a run that observes the stored up or down direction again dispatches
  nothing and keeps it; a run that observes none on a stored value other than none
  dispatches nothing and stores none. And in \<^verbatim>\<open>run_agent_once\<close>, when the answer of
  the LLM client to an up or down observation of a ticker is a JSON object with a
  falsy \<^verbatim>\<open>send_alert\<close> entry, the run dispatches nothing for the ticker and leaves
  its stored state as it was, whatever it was (last conjunct).
\<close>

theorem corridor_sequences:
  "(tk \<in> set (tickers cfg) \<and> loadable f \<and> stored f tk = None
      \<and> polls gate_open observes cfg tk es [''up'', ''up'', ''none'', ''up'']
    \<longrightarrow> (\<exists>f' evss. run_seq run_once es cfg f = Inr (f', evss)
            \<and> map (dispatches tk) evss = [1, 0, 0, 1]))
   \<and> (tk \<in> set (tickers cfg) \<and> loadable f \<and> stored f tk = None
      \<and> polls gate_open observes cfg tk es [''up'', ''down'']
    \<longrightarrow> (\<exists>f' evss. run_seq run_once es cfg f = Inr (f', evss)
            \<and> map (dispatches tk) evss = [1, 1]))
   \<and> (tk \<in> set (tickers cfg) \<and> stored f tk = Some (JStr d) \<and> d \<noteq> ''none''
      \<and> gate_open e cfg \<and> observes e cfg tk d
    \<longrightarrow> (\<exists>f' evs. run_once e cfg f = Inr (f', evs)
            \<and> dispatches tk evs = 0 \<and> stored f' tk = Some (JStr d)))
   \<and> (tk \<in> set (tickers cfg) \<and> stored f tk = Some v \<and> v \<noteq> JStr ''none''
      \<and> gate_open e cfg \<and> observes e cfg tk ''none''
    \<longrightarrow> (\<exists>f' evs. run_once e cfg f = Inr (f', evs)
            \<and> dispatches tk evs = 0 \<and> stored f' tk = Some (JStr ''none'')))
   \<and> (tk \<in> set (tickers cfg) \<and> loadable f \<and> stored f tk = None
      \<and> polls agent_gate_open agent_observes cfg tk es [''up'', ''up'', ''none'', ''up'']
    \<longrightarrow> (\<exists>f' evss. run_seq run_agent_once es cfg f = Inr (f', evss)
            \<and> map (dispatches tk) evss = [1, 0, 0, 1]))
   \<and> (tk \<in> set (tickers cfg) \<and> loadable f \<and> stored f tk = None
      \<and> polls agent_gate_open agent_observes cfg tk es [''up'', ''down'']
    \<longrightarrow> (\<exists>f' evss. run_seq run_agent_once es cfg f = Inr (f', evss)
            \<and> map (dispatches tk) evss = [1, 1]))
   \<and> (tk \<in> set (tickers cfg) \<and> stored f tk = Some (JStr d) \<and> d \<noteq> ''none''
      \<and> agent_gate_open e cfg \<and> agent_observes e cfg tk d
    \<longrightarrow> (\<exists>f' evs. run_agent_once e cfg f = Inr (f', evs)
            \<and> dispatches tk evs = 0 \<and> stored f' tk = Some (JStr d)))
   \<and> (tk \<in> set (tickers cfg) \<and> stored f tk = Some v \<and> v \<noteq> JStr ''none''
      \<and> agent_gate_open e cfg \<and> agent_observes e cfg tk ''none''
    \<longrightarrow> (\<exists>f' evs. run_agent_once e cfg f = Inr (f', evs)
            \<and> dispatches tk evs = 0 \<and> stored f' tk = Some (JStr ''none'')))
   \<and> (client e = None \<and> classify p t \<noteq> ''none''
    \<longrightarrow> fst (agent_summarize_and_decide e tk a b p hs t))
   \<and> (loadable f \<and> agent_gate_open e cfg \<and> agent_refused e cfg tk
    \<longrightarrow> (\<exists>f' evs. run_agent_once e cfg f = Inr (f', evs)
            \<and> dispatches tk evs = 0 \<and> stored f' tk = stored f tk))"
proof -
  have core_run: "\<exists>f' evs. run_once e cfg f = Inr (f', evs) \<and> loadable f'
         \<and> dispatches tk evs = (if corridor_fires (stored f tk) d then 1 else 0)
         \<and> stored f' tk = corridor_next (stored f tk) d"
    if "tk \<in> set (tickers cfg)" "loadable f" "gate_open e cfg" "observes e cfg tk d" for e d f
    using run_once_corridor [OF that(2,3,4)] that(1) by simp
  have agent_run: "\<exists>f' evs. run_agent_once e cfg f = Inr (f', evs) \<and> loadable f'
         \<and> dispatches tk evs = (if corridor_fires (stored f tk) d then 1 else 0)
         \<and> stored f' tk = corridor_next (stored f tk) d"
    if "tk \<in> set (tickers cfg)" "loadable f" "agent_gate_open e cfg" "agent_observes e cfg tk d"
    for e d f
    using run_agent_once_corridor [OF that(2,3,4)] that(1) by simp
  have core_seq: "\<exists>f' evss. run_seq run_once es cfg f = Inr (f', evss)
           \<and> map (dispatches tk) evss = corridor_counts None ds"
    if "tk \<in> set (tickers cfg)" "loadable f" "stored f tk = None"
      "polls gate_open observes cfg tk es ds" for ds
    using run_seq_corridor [of gate_open cfg observes tk run_once es ds f,
        OF core_run [OF that(1)] that(4) that(2)] that(3) by auto
  have agent_seq: "\<exists>f' evss. run_seq run_agent_once es cfg f = Inr (f', evss)
           \<and> map (dispatches tk) evss = corridor_counts None ds"
    if "tk \<in> set (tickers cfg)" "loadable f" "stored f tk = None"
      "polls agent_gate_open agent_observes cfg tk es ds" for ds
    using run_seq_corridor [of agent_gate_open cfg agent_observes tk run_agent_once es ds f,
        OF agent_run [OF that(1)] that(4) that(2)] that(3) by auto
  have c4: "corridor_counts None [''up'', ''up'', ''none'', ''up''] = [1, 0, 0, 1]"
    by (simp add: corridor_fires_def corridor_next_def prev_of_def)
  have c2: "corridor_counts None [''up'', ''down''] = [1, 1]"
    by (simp add: corridor_fires_def corridor_next_def prev_of_def)
  have same: "\<not> corridor_fires (Some (JStr d)) d"
    "d \<noteq> ''none'' \<Longrightarrow> corridor_next (Some (JStr d)) d = Some (JStr d)"
    by (simp_all add: corridor_fires_def corridor_next_def prev_of_def)
  have reset: "\<not> corridor_fires (Some v) ''none''"
    "v \<noteq> JStr ''none'' \<Longrightarrow> corridor_next (Some v) ''none'' = Some (JStr ''none'')"
    by (simp_all add: corridor_fires_def corridor_next_def prev_of_def)
  show ?thesis
  proof (intro conjI impI)
    assume "tk \<in> set (tickers cfg) \<and> loadable f \<and> stored f tk = None
      \<and> polls gate_open observes cfg tk es [''up'', ''up'', ''none'', ''up'']"
    then show "\<exists>f' evss. run_seq run_once es cfg f = Inr (f', evss)
            \<and> map (dispatches tk) evss = [1, 0, 0, 1]"
      using core_seq [of "[''up'', ''up'', ''none'', ''up'']"] c4 by simp
  next
    assume "tk \<in> set (tickers cfg) \<and> loadable f \<and> stored f tk = None
      \<and> polls gate_open observes cfg tk es [''up'', ''down'']"
    then show "\<exists>f' evss. run_seq run_once es cfg f = Inr (f', evss)
            \<and> map (dispatches tk) evss = [1, 1]"
      using core_seq [of "[''up'', ''down'']"] c2 by simp
  next
    assume "tk \<in> set (tickers cfg) \<and> stored f tk = Some (JStr d) \<and> d \<noteq> ''none''
      \<and> gate_open e cfg \<and> observes e cfg tk d"
    then show "\<exists>f' evs. run_once e cfg f = Inr (f', evs)
            \<and> dispatches tk evs = 0 \<and> stored f' tk = Some (JStr d)"
      using core_run [of f e d] same stored_Some_loadable [of f tk "JStr d"] by auto
  next
    assume "tk \<in> set (tickers cfg) \<and> stored f tk = Some v \<and> v \<noteq> JStr ''none''
      \<and> gate_open e cfg \<and> observes e cfg tk ''none''"
    then show "\<exists>f' evs. run_once e cfg f = Inr (f', evs)
            \<and> dispatches tk evs = 0 \<and> stored f' tk = Some (JStr ''none'')"
      using core_run [of f e "''none''"] reset stored_Some_loadable [of f tk v] by auto
  next
    assume "tk \<in> set (tickers cfg) \<and> loadable f \<and> stored f tk = None
      \<and> polls agent_gate_open agent_observes cfg tk es [''up'', ''up'', ''none'', ''up'']"
    then show "\<exists>f' evss. run_seq run_agent_once es cfg f = Inr (f', evss)
            \<and> map (dispatches tk) evss = [1, 0, 0, 1]"
      using agent_seq [of "[''up'', ''up'', ''none'', ''up'']"] c4 by simp
  next
    assume "tk \<in> set (tickers cfg) \<and> loadable f \<and> stored f tk = None
      \<and> polls agent_gate_open agent_observes cfg tk es [''up'', ''down'']"
    then show "\<exists>f' evss. run_seq run_agent_once es cfg f = Inr (f', evss)
            \<and> map (dispatches tk) evss = [1, 1]"
      using agent_seq [of "[''up'', ''down'']"] c2 by simp
  next
    assume "tk \<in> set (tickers cfg) \<and> stored f tk = Some (JStr d) \<and> d \<noteq> ''none''
      \<and> agent_gate_open e cfg \<and> agent_observes e cfg tk d"
    then show "\<exists>f' evs. run_agent_once e cfg f = Inr (f', evs)
            \<and> dispatches tk evs = 0 \<and> stored f' tk = Some (JStr d)"
      using agent_run [of f e d] same stored_Some_loadable [of f tk "JStr d"] by auto
  next
    assume "tk \<in> set (tickers cfg) \<and> stored f tk = Some v \<and> v \<noteq> JStr ''none''
      \<and> agent_gate_open e cfg \<and> agent_observes e cfg tk ''none''"
    then show "\<exists>f' evs. run_agent_once e cfg f = Inr (f', evs)
            \<and> dispatches tk evs = 0 \<and> stored f' tk = Some (JStr ''none'')"
      using agent_run [of f e "''none''"] reset stored_Some_loadable [of f tk v] by auto
  next
    assume "client e = None \<and> classify p t \<noteq> ''none''"
    then show "fst (agent_summarize_and_decide e tk a b p hs t)"
      using no_client_sends by blast
  next
    assume "loadable f \<and> agent_gate_open e cfg \<and> agent_refused e cfg tk"
    then show "\<exists>f' evs. run_agent_once e cfg f = Inr (f', evs)
            \<and> dispatches tk evs = 0 \<and> stored f' tk = stored f tk"
      using run_agent_once_refused [of f e cfg tk] by blast
  qed
qed

text \<open>
  The theorem at the ticker AAPL, threshold 1 and an absent state file, with open 100
  and the last prices 101.5, 102, 100.3, 101.5 (up, up, none, up), then 101.5, 98.5
  (up, down), then again up on a stored up and none on a stored up; and at a stored
  down with the last price 101.5 (up) and an LLM client that answers
  \<^verbatim>\<open>{"send_alert": false}\<close>: nothing is dispatched and the stored down stays.
\<close>

theorem corridor_sequences_witness:
  "(\<exists>f' evss. run_seq run_once
        [priced 100 (203/2), priced 100 102, priced 100 (1003/10), priced 100 (203/2)]
        demo_cfg Missing = Inr (f', evss)
      \<and> map (dispatches ''AAPL'') evss = [1, 0, 0, 1])
   \<and> (\<exists>f' evss. run_seq run_once [priced 100 (203/2), priced 100 (197/2)] demo_cfg Missing
        = Inr (f', evss)
      \<and> map (dispatches ''AAPL'') evss = [1, 1])
   \<and> (\<exists>f' evs. run_once (priced 100 102) demo_cfg (Doc (JObj [(''AAPL'', JStr ''up'')]))
        = Inr (f', evs)
      \<and> dispatches ''AAPL'' evs = 0 \<and> stored f' ''AAPL'' = Some (JStr ''up''))
   \<and> (\<exists>f' evs. run_once (priced 100 (1003/10)) demo_cfg (Doc (JObj [(''AAPL'', JStr ''up'')]))
        = Inr (f', evs)
      \<and> dispatches ''AAPL'' evs = 0 \<and> stored f' ''AAPL'' = Some (JStr ''none''))
   \<and> (\<exists>f' evss. run_seq run_agent_once
        [priced 100 (203/2), priced 100 102, priced 100 (1003/10), priced 100 (203/2)]
        demo_cfg Missing = Inr (f', evss)
      \<and> map (dispatches ''AAPL'') evss = [1, 0, 0, 1])
   \<and> (\<exists>f' evss. run_seq run_agent_once [priced 100 (203/2), priced 100 (197/2)] demo_cfg Missing
        = Inr (f', evss)
      \<and> map (dispatches ''AAPL'') evss = [1, 1])
   \<and> (\<exists>f' evs. run_agent_once (priced 100 102) demo_cfg (Doc (JObj [(''AAPL'', JStr ''up'')]))
        = Inr (f', evs)
      \<and> dispatches ''AAPL'' evs = 0 \<and> stored f' ''AAPL'' = Some (JStr ''up''))
   \<and> (\<exists>f' evs. run_agent_once (priced 100 (1003/10)) demo_cfg
        (Doc (JObj [(''AAPL'', JStr ''up'')])) = Inr (f', evs)
      \<and> dispatches ''AAPL'' evs = 0 \<and> stored f' ''AAPL'' = Some (JStr ''none''))
   \<and> fst (agent_summarize_and_decide quiet_env ''AAPL'' 100 (203/2) (3/2) [] 1)
   \<and> (\<exists>f' evs. run_agent_once (refusing (priced 100 (203/2))) demo_cfg
        (Doc (JObj [(''AAPL'', JStr ''down'')])) = Inr (f', evs)
      \<and> dispatches ''AAPL'' evs = 0 \<and> stored f' ''AAPL'' = Some (JStr ''down''))"
proof -
  let ?up = "priced 100 (203/2)" and ?up2 = "priced 100 102"
  let ?flat = "priced 100 (1003/10)" and ?down = "priced 100 (197/2)"
  let ?held = "Doc (JObj [(''AAPL'', JStr ''up'')])"
  let ?low = "Doc (JObj [(''AAPL'', JStr ''down'')])"
  have o: "observes ?up demo_cfg ''AAPL'' ''up''" "observes ?up2 demo_cfg ''AAPL'' ''up''"
    "observes ?flat demo_cfg ''AAPL'' ''none''" "observes ?down demo_cfg ''AAPL'' ''down''"
    using demo_observes [of 100 "203/2" "''AAPL''"] demo_observes [of 100 102 "''AAPL''"]
      demo_observes [of 100 "1003/10" "''AAPL''"] demo_observes [of 100 "197/2" "''AAPL''"]
    by (simp_all add: demo_dirs)
  have ao: "agent_observes ?up demo_cfg ''AAPL'' ''up''" "agent_observes ?up2 demo_cfg ''AAPL'' ''up''"
    "agent_observes ?flat demo_cfg ''AAPL'' ''none''" "agent_observes ?down demo_cfg ''AAPL'' ''down''"
    using demo_agent_observes [of 100 "203/2" "''AAPL''"] demo_agent_observes [of 100 102 "''AAPL''"]
      demo_agent_observes [of 100 "1003/10" "''AAPL''"] demo_agent_observes [of 100 "197/2" "''AAPL''"]
    by (simp_all add: demo_dirs)
  have p4: "polls gate_open observes demo_cfg ''AAPL'' [?up, ?up2, ?flat, ?up]
              [''up'', ''up'', ''none'', ''up'']"
    and p2: "polls gate_open observes demo_cfg ''AAPL'' [?up, ?down] [''up'', ''down'']"
    and ap4: "polls agent_gate_open agent_observes demo_cfg ''AAPL'' [?up, ?up2, ?flat, ?up]
              [''up'', ''up'', ''none'', ''up'']"
    and ap2: "polls agent_gate_open agent_observes demo_cfg ''AAPL'' [?up, ?down] [''up'', ''down'']"
    by (simp_all add: polls_def demo_gate demo_agent_gate o ao)
  have held: "stored ?held ''AAPL'' = Some (JStr ''up'')"
    "stored ?low ''AAPL'' = Some (JStr ''down'')" "loadable ?low" by simp_all
  have nc: "client quiet_env = None" "classify (3/2) 1 \<noteq> ''none''"
    by (simp_all add: quiet_env_def classify_def)
  note s = demo_stored(1) [of "''AAPL''"] and m = demo_stored(2) and l = demo_stored(3)
  note rf = demo_refused [of "''AAPL''"] and rg = demo_refusing_gate [of 100 "203/2"]
  show ?thesis
    using corridor_sequences [where tk = "''AAPL''" and cfg = demo_cfg and f = Missing
        and es = "[?up, ?up2, ?flat, ?up]"]
      corridor_sequences [where tk = "''AAPL''" and cfg = demo_cfg and f = Missing
        and es = "[?up, ?down]"]
      corridor_sequences [where tk = "''AAPL''" and cfg = demo_cfg and f = ?held
        and d = "''up''" and e = ?up2 and v = "JStr ''up''"]
      corridor_sequences [where tk = "''AAPL''" and cfg = demo_cfg and f = ?held
        and d = "''up''" and e = ?flat and v = "JStr ''up''"]
      corridor_sequences [where e = quiet_env and p = "3/2" and t = 1 and tk = "''AAPL''"
        and a = 100 and b = "203/2" and hs = "[]"]
      corridor_sequences [where tk = "''AAPL''" and cfg = demo_cfg and f = ?low
        and e = "refusing ?up"]
      p4 p2 ap4 ap2 s m l held nc o ao demo_gate demo_agent_gate rf rg
    by simp
qed

text \<open>
  The claim as stated fails in \<^verbatim>\<open>run_agent_once\<close>: with an LLM client that answers
  \<^verbatim>\<open>{"send_alert": false}\<close>, the observed directions up, down on an absent state
  dispatch nothing at all and leave the state file absent.
\<close>

theorem corridor_sequences_counterexample:
  "classify (pct_change 100 (203/2)) (threshold demo_cfg) = ''up''
   \<and> classify (pct_change 100 (197/2)) (threshold demo_cfg) = ''down''
   \<and> stored Missing ''AAPL'' = None
   \<and> run_seq run_agent_once [refusing (priced 100 (203/2)), refusing (priced 100 (197/2))]
        demo_cfg Missing = Inr (Missing, [[], []])
   \<and> map (dispatches ''AAPL'') [[], []] = [0, 0]"
  by (simp add: run_agent_once_def demo_simps refusing_def refusal_text_def clock_simps
     load_state_def path_exists_def agent_process_ticker_def agent_ticker_body_def catch_ticker_def
     agent_summarize_and_decide_def classify_def pct_change_def state_get_def Let_def
     stored_def loaded_def)

subsection \<open>A zero open price\<close>

text \<open>
  \<^verbatim>\<open>run_once\<close> raises on a zero open price inside the \<^verbatim>\<open>try\<close> of the ticker: the
  ticker ends with the error line only, memory and file as they were, and the loop goes
  on with the next ticker.
\<close>

lemma zero_open_process_ticker:
  assumes "get_open_and_last e tk = Inr (0, last_px)"
  shows "process_ticker e cfg tk w = (w, [LogError tk RuntimeError])"
  using assms by (simp add: process_ticker_def ticker_body_def catch_ticker_def)

lemma zero_open_run_tickers:
  assumes "get_open_and_last e tk = Inr (0, last_px)"
  shows "run_tickers (process_ticker e cfg) (tk # tks) w =
           (case run_tickers (process_ticker e cfg) tks w of
              (w', evs) \<Rightarrow> (w', LogError tk RuntimeError # evs))"
  by (simp add: zero_open_process_ticker [OF assms] split: prod.splits)

text \<open>
  Claim C3. A fetched open price of 0 is a failure of that ticker: no change of 0
  percent is taken as a signal, nothing is dispatched, the stored state stays as it
  was in memory and on disk, and the run goes on. \<^verbatim>\<open>run_once\<close> does so (the two
  lemmas above). \<^verbatim>\<open>run_agent_once\<close> has no such test and does not: with the stored
  state up for AAPL, threshold 1 and the provider answering open 0 and last 101.5, the
  change is taken as 0 percent, classified none, and the stored state is reset to none
  and saved. \<^verbatim>\<open>run_once\<close> on the same input only logs the error.
\<close>

theorem zero_open_agent_resets:
  "run_agent_once (priced 0 (203/2)) demo_cfg (Doc (JObj [(''AAPL'', JStr ''up'')]))
     = Inr (Doc (JObj [(''AAPL'', JStr ''none'')]),
            [SetState ''AAPL'' ''none'', SaveState [(''AAPL'', JStr ''none'')]])
   \<and> run_once (priced 0 (203/2)) demo_cfg (Doc (JObj [(''AAPL'', JStr ''up'')]))
     = Inr (Doc (JObj [(''AAPL'', JStr ''up'')]), [LogError ''AAPL'' RuntimeError])"
  by (simp add: run_agent_once_def run_once_def demo_simps clock_simps
     load_state_def path_exists_def read_and_loads_def agent_process_ticker_def
     agent_ticker_body_def process_ticker_def ticker_body_def catch_ticker_def
     agent_summarize_and_decide_def classify_def pct_change_def state_get_def Let_def
     set_and_save_def save_state_def format_plain_push_def)

subsection \<open>Every assignment is saved at once\<close>

lemma run_tickers_replay:
  assumes shape: "\<And>t w. \<exists>r. step_shape e t w r \<and> step t w = catch_ticker t r"
    and "run_tickers step tks w = (w', evs)"
  shows "saved_after_write (fst w) (evs @ rest) = saved_after_write (fst w') rest
         \<and> file_after (write_text e) (snd w) (evs @ rest) = file_after (write_text e) (snd w') rest"
  using assms(2)
proof (induction tks arbitrary: w w' evs rest)
  case Nil
  then show ?case by simp
next
  case (Cons t tks)
  obtain w1 evs1 where s1: "step t w = (w1, evs1)" by (cases "step t w")
  obtain w2 evs2 where s2: "run_tickers step tks w1 = (w2, evs2)" by (cases "run_tickers step tks w1")
  from Cons.prems s1 s2 have eq: "w' = w2" "evs = evs1 @ evs2" by simp_all
  from shape [of t w] s1 obtain r where r: "step_shape e t w r" "catch_ticker t r = (w1, evs1)"
    by auto
  from step_replay_saved [OF r, of "evs2 @ rest"] step_replay_file [OF r, of "evs2 @ rest"]
    Cons.IH [OF s2, of rest]
  show ?case unfolding eq by simp
qed

text \<open>
  The effects of a run that returns, replayed from the mapping it loaded: each
  assignment writes a direction string and is followed at once by the save of the
  whole mapping, and the file the run leaves is the one its saves produce.
\<close>

lemma run_once_replay:
  assumes run: "run_once e cfg f = Inr (f', evs)"
  shows "saved_after_write (loaded f) evs \<and> f' = file_after (write_text e) f evs"
proof (cases "run_tickers (process_ticker e cfg) (tickers cfg) (loaded f, f)")
  case (Pair w evs')
  have "\<exists>r. step_shape e t w0 r \<and> process_ticker e cfg t w0 = catch_ticker t r" for t w0
    unfolding process_ticker_def using ticker_body_shape [of e t w0 cfg] by blast
  from run_tickers_replay [of e "process_ticker e cfg", OF this Pair, of "[]"]
  have "saved_after_write (loaded f) evs'" "file_after (write_text e) f evs' = snd w"
    by simp_all
  with run Pair show ?thesis
    unfolding run_once_def Let_def
    by (auto simp: loaded_def split: sum.splits if_splits)
qed

lemma run_agent_once_replay:
  assumes run: "run_agent_once e cfg f = Inr (f', evs)"
  shows "saved_after_write (loaded f) evs \<and> f' = file_after (write_text e) f evs"
proof (cases "run_tickers (agent_process_ticker e cfg) (tickers cfg) (loaded f, f)")
  case (Pair w evs')
  have "\<exists>r. step_shape e t w0 r \<and> agent_process_ticker e cfg t w0 = catch_ticker t r" for t w0
    unfolding agent_process_ticker_def using agent_ticker_body_shape [of e t w0 cfg] by blast
  from run_tickers_replay [of e "agent_process_ticker e cfg", OF this Pair, of "[]"]
  have "saved_after_write (loaded f) evs'" "file_after (write_text e) f evs' = snd w"
    by simp_all
  with run Pair show ?thesis
    unfolding run_agent_once_def Let_def
    by (auto simp: loaded_def split: sum.splits if_splits)
qed

text \<open>
  One ticker whose observed direction is to be written, with every collaborator
  answering: the ticker ends with the direction assigned in memory, the file holding
  the mapping with that assignment, and the assignment and its save as the last two
  effects.
\<close>

lemma process_ticker_writes:
  assumes o: "observes e cfg tk d" and due: "corridor_writes (map_of mem tk) d"
  shows "\<exists>evs0. process_ticker e cfg tk (mem, g) =
           ((AList.update tk (JStr d) mem, Doc (JObj (AList.update tk (JStr d) mem))),
            evs0 @ [SetState tk d, SaveState (AList.update tk (JStr d) mem)])"
proof -
  from o have wr: "\<And>m. write_text e m = Written" unfolding observes_def by blast
  from ticker_body_observed [OF o, of "(mem, g)"] obtain n where
    b: "ticker_body e cfg tk (mem, g) =
         (if corridor_fires (map_of (fst (mem, g)) tk) d
          then set_and_save e tk d (mem, g) [Notify tk n]
          else if d = ''none'' \<and> prev_of (map_of (fst (mem, g)) tk) \<noteq> JStr ''none''
            then set_and_save e tk ''none'' (mem, g) []
          else ((mem, g), [], None))" by blast
  from due have due': "corridor_writes (map_of (fst (mem, g)) tk) d" by simp
  from observed_write [OF b wr due'] show ?thesis
    by (simp add: process_ticker_def)
qed

lemma agent_process_ticker_writes:
  assumes o: "agent_observes e cfg tk d" and due: "corridor_writes (map_of mem tk) d"
  shows "\<exists>evs0. agent_process_ticker e cfg tk (mem, g) =
           ((AList.update tk (JStr d) mem, Doc (JObj (AList.update tk (JStr d) mem))),
            evs0 @ [SetState tk d, SaveState (AList.update tk (JStr d) mem)])"
proof -
  from o have wr: "\<And>m. write_text e m = Written" unfolding agent_observes_def by blast
  from agent_ticker_body_observed [OF o, of "(mem, g)"] obtain n where
    b: "agent_ticker_body e cfg tk (mem, g) =
         (if corridor_fires (map_of (fst (mem, g)) tk) d
          then set_and_save e tk d (mem, g) [Notify tk n]
          else if d = ''none'' \<and> prev_of (map_of (fst (mem, g)) tk) \<noteq> JStr ''none''
            then set_and_save e tk ''none'' (mem, g) []
          else ((mem, g), [], None))" by blast
  from due have due': "corridor_writes (map_of (fst (mem, g)) tk) d" by simp
  from observed_write [OF b wr due'] show ?thesis
    by (simp add: agent_process_ticker_def)
qed

text \<open>
  Claim C9. In both orchestrators every assignment to the state mapping writes one of
  the strings up, down, none and is followed at once, before anything else happens, by
  a save of the whole mapping with the assignment made, and the state file a run
  leaves is the one these saves produce (first two conjuncts: the effects of any run
  that returns, replayed from the mapping it loaded, whatever the collaborators do).
  When a ticker's observed direction is to be written (a breakout, or a reset to
  none) and the collaborators answer, processing that ticker ends with the assignment
  and its save as its last two effects and with the state file holding the mapping
  with that assignment (third and fourth conjunct), and the file the whole run leaves
  holds the direction for the ticker (last two conjuncts).
\<close>

theorem writes_are_saved:
  "(run_once e cfg f = Inr (f', evs)
      \<longrightarrow> saved_after_write (loaded f) evs \<and> f' = file_after (write_text e) f evs)
   \<and> (run_agent_once e cfg f = Inr (f', evs)
      \<longrightarrow> saved_after_write (loaded f) evs \<and> f' = file_after (write_text e) f evs)
   \<and> (observes e cfg tk d \<and> corridor_writes (map_of mem tk) d
      \<longrightarrow> (\<exists>evs0. process_ticker e cfg tk (mem, g) =
             ((AList.update tk (JStr d) mem, Doc (JObj (AList.update tk (JStr d) mem))),
              evs0 @ [SetState tk d, SaveState (AList.update tk (JStr d) mem)]))
          \<and> stored (Doc (JObj (AList.update tk (JStr d) mem))) tk = Some (JStr d))
   \<and> (agent_observes e cfg tk d \<and> corridor_writes (map_of mem tk) d
      \<longrightarrow> (\<exists>evs0. agent_process_ticker e cfg tk (mem, g) =
             ((AList.update tk (JStr d) mem, Doc (JObj (AList.update tk (JStr d) mem))),
              evs0 @ [SetState tk d, SaveState (AList.update tk (JStr d) mem)]))
          \<and> stored (Doc (JObj (AList.update tk (JStr d) mem))) tk = Some (JStr d))
   \<and> (tk \<in> set (tickers cfg) \<and> loadable f \<and> gate_open e cfg \<and> observes e cfg tk d
        \<and> corridor_writes (stored f tk) d
      \<longrightarrow> (\<exists>f1 evs1. run_once e cfg f = Inr (f1, evs1) \<and> stored f1 tk = Some (JStr d)))
   \<and> (tk \<in> set (tickers cfg) \<and> loadable f \<and> agent_gate_open e cfg \<and> agent_observes e cfg tk d
        \<and> corridor_writes (stored f tk) d
      \<longrightarrow> (\<exists>f1 evs1. run_agent_once e cfg f = Inr (f1, evs1) \<and> stored f1 tk = Some (JStr d)))"
proof -
  have core: "saved_after_write (loaded f) evs \<and> f' = file_after (write_text e) f evs"
    if "run_once e cfg f = Inr (f', evs)"
    using run_once_replay [OF that] .
  have agent: "saved_after_write (loaded f) evs \<and> f' = file_after (write_text e) f evs"
    if "run_agent_once e cfg f = Inr (f', evs)"
    using run_agent_once_replay [OF that] .
  have held: "stored (Doc (JObj (AList.update tk (JStr d) mem))) tk = Some (JStr d)"
    by (simp add: update_conv')
  have step: "\<exists>evs0. process_ticker e cfg tk (mem, g) =
             ((AList.update tk (JStr d) mem, Doc (JObj (AList.update tk (JStr d) mem))),
              evs0 @ [SetState tk d, SaveState (AList.update tk (JStr d) mem)])"
    if "observes e cfg tk d" "corridor_writes (map_of mem tk) d"
    using process_ticker_writes [OF that] .
  have agent_step: "\<exists>evs0. agent_process_ticker e cfg tk (mem, g) =
             ((AList.update tk (JStr d) mem, Doc (JObj (AList.update tk (JStr d) mem))),
              evs0 @ [SetState tk d, SaveState (AList.update tk (JStr d) mem)])"
    if "agent_observes e cfg tk d" "corridor_writes (map_of mem tk) d"
    using agent_process_ticker_writes [OF that] .
  have whole: "\<exists>f1 evs1. run_once e cfg f = Inr (f1, evs1) \<and> stored f1 tk = Some (JStr d)"
    if "tk \<in> set (tickers cfg)" "loadable f" "gate_open e cfg" "observes e cfg tk d"
      "corridor_writes (stored f tk) d"
    using run_once_corridor [OF that(2,3,4)] that(1) corridor_writes_next [OF that(5)]
    by auto
  have agent_whole: "\<exists>f1 evs1. run_agent_once e cfg f = Inr (f1, evs1)
      \<and> stored f1 tk = Some (JStr d)"
    if "tk \<in> set (tickers cfg)" "loadable f" "agent_gate_open e cfg" "agent_observes e cfg tk d"
      "corridor_writes (stored f tk) d"
    using run_agent_once_corridor [OF that(2,3,4)] that(1) corridor_writes_next [OF that(5)]
    by auto
  from core agent held step agent_step whole agent_whole show ?thesis by blast
qed

text \<open>
  The theorem at AAPL with an absent state file, open 100 and last 101.5 (up), in
  both orchestrators: the run returns, its effects replay, processing the ticker ends
  with the assignment of up and its save and with the file holding up, and the file
  the run leaves holds up for AAPL.
\<close>

theorem writes_are_saved_witness:
  "(\<exists>f' evs. run_once (priced 100 (203/2)) demo_cfg Missing = Inr (f', evs)
      \<and> saved_after_write (loaded Missing) evs
      \<and> f' = file_after (write_text (priced 100 (203/2))) Missing evs
      \<and> stored f' ''AAPL'' = Some (JStr ''up''))
   \<and> (\<exists>f' evs. run_agent_once (priced 100 (203/2)) demo_cfg Missing = Inr (f', evs)
      \<and> saved_after_write (loaded Missing) evs
      \<and> f' = file_after (write_text (priced 100 (203/2))) Missing evs
      \<and> stored f' ''AAPL'' = Some (JStr ''up''))
   \<and> (\<exists>evs0. process_ticker (priced 100 (203/2)) demo_cfg ''AAPL'' ([], Missing) =
         (([(''AAPL'', JStr ''up'')], Doc (JObj [(''AAPL'', JStr ''up'')])),
          evs0 @ [SetState ''AAPL'' ''up'', SaveState [(''AAPL'', JStr ''up'')]]))
   \<and> (\<exists>evs0. agent_process_ticker (priced 100 (203/2)) demo_cfg ''AAPL'' ([], Missing) =
         (([(''AAPL'', JStr ''up'')], Doc (JObj [(''AAPL'', JStr ''up'')])),
          evs0 @ [SetState ''AAPL'' ''up'', SaveState [(''AAPL'', JStr ''up'')]]))"
proof -
  let ?e = "priced 100 (203/2)"
  have o: "observes ?e demo_cfg ''AAPL'' ''up''"
    using demo_observes [of 100 "203/2" "''AAPL''"] by (simp add: demo_dirs)
  have ao: "agent_observes ?e demo_cfg ''AAPL'' ''up''"
    using demo_agent_observes [of 100 "203/2" "''AAPL''"] by (simp add: demo_dirs)
  have due: "corridor_writes (stored Missing ''AAPL'') ''up''"
    "corridor_writes (map_of [] ''AAPL'') ''up''"
    by (simp_all add: demo_stored corridor_writes_def corridor_fires_def prev_of_def)
  note m = demo_stored(2) and l = demo_stored(3)
  note g = demo_gate [of 100 "203/2"] and ag = demo_agent_gate [of 100 "203/2"]
  from writes_are_saved [of ?e demo_cfg Missing Missing "[]" "''AAPL''" "''up''" "[]" Missing]
    o ao due m l g ag
  have step: "\<exists>evs0. process_ticker ?e demo_cfg ''AAPL'' ([], Missing) =
         (([(''AAPL'', JStr ''up'')], Doc (JObj [(''AAPL'', JStr ''up'')])),
          evs0 @ [SetState ''AAPL'' ''up'', SaveState [(''AAPL'', JStr ''up'')]])"
    and astep: "\<exists>evs0. agent_process_ticker ?e demo_cfg ''AAPL'' ([], Missing) =
         (([(''AAPL'', JStr ''up'')], Doc (JObj [(''AAPL'', JStr ''up'')])),
          evs0 @ [SetState ''AAPL'' ''up'', SaveState [(''AAPL'', JStr ''up'')]])"
    and run: "\<exists>f1 evs1. run_once ?e demo_cfg Missing = Inr (f1, evs1)
                \<and> stored f1 ''AAPL'' = Some (JStr ''up'')"
    and arun: "\<exists>f1 evs1. run_agent_once ?e demo_cfg Missing = Inr (f1, evs1)
                \<and> stored f1 ''AAPL'' = Some (JStr ''up'')"
    by simp_all
  from run obtain f1 evs1 where r: "run_once ?e demo_cfg Missing = Inr (f1, evs1)"
    and s: "stored f1 ''AAPL'' = Some (JStr ''up'')" by blast
  from arun obtain f2 evs2 where ar: "run_agent_once ?e demo_cfg Missing = Inr (f2, evs2)"
    and s2: "stored f2 ''AAPL'' = Some (JStr ''up'')" by blast
  from writes_are_saved [of ?e demo_cfg Missing f1 evs1 "''AAPL''" "''up''" "[]" Missing] r
  have c: "saved_after_write (loaded Missing) evs1"
    "f1 = file_after (write_text ?e) Missing evs1" by simp_all
  from writes_are_saved [of ?e demo_cfg Missing f2 evs2 "''AAPL''" "''up''" "[]" Missing] ar
  have ac: "saved_after_write (loaded Missing) evs2"
    "f2 = file_after (write_text ?e) Missing evs2" by simp_all
  from r s c ar s2 ac step astep show ?thesis by blast
qed

section \<open>Loading the state file\<close>

text \<open>
  What \<^verbatim>\<open>load_state\<close> does whenever \<^verbatim>\<open>path.exists()\<close> returns: it returns a
  mapping, which is empty when the file is missing, cannot be read or is not JSON, and
  also when it holds JSON that is not an object; an object is returned as it is,
  whatever its values.
\<close>

lemma load_state_probed:
  "(f \<noteq> Inaccessible \<longrightarrow> (\<exists>m. load_state f = Inr m))
   \<and> load_state Missing = Inr []
   \<and> load_state Unreadable = Inr []
   \<and> load_state Garbled = Inr []
   \<and> ((\<forall>kvs. d \<noteq> JObj kvs) \<longrightarrow> load_state (Doc d) = Inr [])
   \<and> load_state (Doc (JObj m)) = Inr m"
  by (auto simp: load_state_def path_exists_def read_and_loads_def
      split: sfile.splits json.splits)

text \<open>
  Claim C10. Loading the alert state never raises: for a missing, unreadable or
  unparseable file and for JSON that is not an object the result is the empty mapping,
  and an object is returned as it is. \<^verbatim>\<open>load_state\<close> catches what reading and
  parsing raise (the lemma above), but its first call, \<^verbatim>\<open>path.exists()\<close>, stands
  before the \<^verbatim>\<open>try\<close>: on a state file that cannot be probed the OSError leaves
  \<^verbatim>\<open>load_state\<close>, and both orchestrators, which call it outside their per-ticker
  \<^verbatim>\<open>try\<close>, end with that exception although the market is open and the price
  provider answers.
\<close>

theorem load_state_unprobed_raises:
  "path_exists Inaccessible = Inl OSError
   \<and> load_state Inaccessible = Inl OSError
   \<and> run_once (priced 100 (203/2)) demo_cfg Inaccessible = Inl OSError
   \<and> run_agent_once (priced 100 (203/2)) demo_cfg Inaccessible = Inl OSError"
  by (simp add: run_once_def run_agent_once_def load_state_def path_exists_def demo_simps
      clock_simps Let_def)

section \<open>The market-hours window\<close>

lemma dt_le_time_of_day:
  assumes "valid_clock a" "valid_clock b"
  shows "dt_le a b \<longleftrightarrow> time_of_day a \<le> time_of_day b"
  using assms unfolding dt_le_def time_of_day_def valid_clock_def by auto

lemma replace_hm_valid:
  assumes "valid_hm hm"
  shows "replace_hm n (fst hm) (snd hm) =
           Inr (n\<lparr>hour := nat (fst hm), minute := nat (snd hm), second := 0, microsecond := 0\<rparr>)"
  using assms by (simp add: replace_hm_def valid_hm_def)

lemma in_window_closed:
  assumes "valid_hm opn" "valid_hm cls" "valid_clock n"
  shows "in_window n opn cls = Inr (hm_micro opn \<le> time_of_day n \<and> time_of_day n \<le> hm_micro cls)"
proof -
  let ?start = "n\<lparr>hour := nat (fst opn), minute := nat (snd opn), second := 0, microsecond := 0\<rparr>"
  let ?stop = "n\<lparr>hour := nat (fst cls), minute := nat (snd cls), second := 0, microsecond := 0\<rparr>"
  have vs: "valid_clock ?start" "valid_clock ?stop"
    using assms by (auto simp: valid_clock_def valid_hm_def)
  have ts: "time_of_day ?start = hm_micro opn" "time_of_day ?stop = hm_micro cls"
    by (simp_all add: time_of_day_def hm_micro_def)
  show ?thesis
    using assms(3) vs ts
    by (simp add: in_window_def replace_hm_valid [OF assms(1)] replace_hm_valid [OF assms(2)]
        dt_le_time_of_day)
qed

text \<open>
  Claim C8, as amended. For a schema A configuration with pause_on_closed true, open
  and close times that parse to valid clock times, and a clock reading \<open>n\<close>: both
  \<^verbatim>\<open>is_market_hours\<close> and \<^verbatim>\<open>within_market_hours\<close> return false when active_days
  is not empty and the weekday is not in it; otherwise (an empty active_days lets
  every day pass) they return true exactly when the local time lies in the closed
  interval from open to close, the close instant included.
\<close>

theorem market_hours_window:
  assumes "timezone cfg = Some zone" and "open_hhmm cfg = Some opn_s"
    and "close_hhmm cfg = Some cls_s"
    and "parse_hhmm to_int opn_s = Inr opn" and "parse_hhmm to_int cls_s = Inr cls"
    and "valid_hm opn" and "valid_hm cls"
    and "get_default (pause_on_closed cfg) True"
    and "clock zone = Inr n" and "valid_clock n"
    and "days = get_default (active_days cfg) [1, 2, 3, 4, 5]"
  shows "is_market_hours to_int clock cfg =
           Inr ((days = [] \<or> int (weekday n) + 1 \<in> set days)
                \<and> hm_micro opn \<le> time_of_day n \<and> time_of_day n \<le> hm_micro cls)
         \<and> within_market_hours to_int clock cfg =
           Inr ((days = [] \<or> int (weekday n) + 1 \<in> set days)
                \<and> hm_micro opn \<le> time_of_day n \<and> time_of_day n \<le> hm_micro cls)"
  using assms
  by (auto simp: is_market_hours_def within_market_hours_def Let_def get_default_def
      in_window_closed)

lemma nyse_parse:
  "parse_hhmm digits_int ''09:30'' = Inr (9, 30)"
  "parse_hhmm digits_int ''16:00'' = Inr (16, 0)"
  by (simp_all add: parse_hhmm_def digits_int_def digit_val_def)

text \<open>
  The theorem at the New York configuration: open on a Monday at 12:00:00, closed one
  microsecond after 16:00:00.
\<close>

theorem market_hours_window_witness:
  "is_market_hours digits_int (\<lambda>zone. Inr (monday_at 12 0 0 0)) nyse_cfg = Inr True
   \<and> within_market_hours digits_int (\<lambda>zone. Inr (monday_at 12 0 0 0)) nyse_cfg = Inr True
   \<and> is_market_hours digits_int (\<lambda>zone. Inr (monday_at 16 0 0 1)) nyse_cfg = Inr False
   \<and> within_market_hours digits_int (\<lambda>zone. Inr (monday_at 16 0 0 1)) nyse_cfg = Inr False"
  using market_hours_window [of nyse_cfg "''America/New_York''" "''09:30''" "''16:00''"
      digits_int "(9, 30)" "(16, 0)" "\<lambda>zone. Inr (monday_at 12 0 0 0)" "monday_at 12 0 0 0"
      "[1, 2, 3, 4, 5]"]
    market_hours_window [of nyse_cfg "''America/New_York''" "''09:30''" "''16:00''"
      digits_int "(9, 30)" "(16, 0)" "\<lambda>zone. Inr (monday_at 16 0 0 1)" "monday_at 16 0 0 1"
      "[1, 2, 3, 4, 5]"]
  by (simp add: nyse_parse nyse_cfg_def get_default_def valid_hm_def valid_clock_def
      monday_at_def time_of_day_def hm_micro_def)

text \<open>
  The claim as stated fails at the close instant: on a Monday at exactly
  16:00:00.000000 both functions answer true. And with an empty active_days list a
  Sunday noon passes, although Sunday is in no list of active days.
\<close>

theorem market_hours_window_counterexample:
  "is_market_hours digits_int (\<lambda>zone. Inr (monday_at 16 0 0 0)) nyse_cfg = Inr True
   \<and> within_market_hours digits_int (\<lambda>zone. Inr (monday_at 16 0 0 0)) nyse_cfg = Inr True
   \<and> time_of_day (monday_at 16 0 0 0) = hm_micro (16, 0)
   \<and> is_market_hours digits_int (\<lambda>zone. Inr ((monday_at 12 0 0 0)\<lparr>weekday := 6\<rparr>))
        (nyse_cfg\<lparr>active_days := Some []\<rparr>) = Inr True
   \<and> within_market_hours digits_int (\<lambda>zone. Inr ((monday_at 12 0 0 0)\<lparr>weekday := 6\<rparr>))
        (nyse_cfg\<lparr>active_days := Some []\<rparr>) = Inr True"
  by (simp add: clock_simps time_of_day_def hm_micro_def)

section \<open>The composer's send decision\<close>

text \<open>
  Claim C2, as amended. The decision of \<^verbatim>\<open>agent_summarize_and_decide\<close> is the
  magnitude test \<open>|delta| \<ge> threshold\<close> whenever the collaborator says nothing about
  sending: it is absent, it raises, its answer is not JSON or not a JSON object, or the
  object has no \<^verbatim>\<open>send_alert\<close> entry. When the answer is an object with a
  \<^verbatim>\<open>send_alert\<close> entry, the decision is the truth value of that entry, on either side
  of the threshold. Without a client, and when the client raises, the whole result is
  the deterministic one.
\<close>

theorem advisory_decision:
  "(advisory_send_alert e tk a b d hs t = None
      \<longrightarrow> fst (agent_summarize_and_decide e tk a b d hs t) = (\<bar>d\<bar> \<ge> t))
   \<and> (advisory_send_alert e tk a b d hs t = Some v
      \<longrightarrow> fst (agent_summarize_and_decide e tk a b d hs t) = truthy v)
   \<and> (client e = None \<or> (\<exists>llm x. client e = Some llm \<and> llm (user_payload tk a b d hs t) = Inl x)
      \<longrightarrow> agent_summarize_and_decide e tk a b d hs t
            = (\<bar>d\<bar> \<ge> t, format_plain_push e tk a b d hs))"
  by (auto simp: advisory_send_alert_def agent_summarize_and_decide_def Let_def
      split: option.splits sum.splits json.splits)

lemma refusing_answer:
  "advisory_send_alert (refusing quiet_env) tk a b d hs t = Some (JBool False)"
  by (simp add: advisory_send_alert_def refusing_def quiet_env_def refusal_text_def or_else_def)

lemma quiet_answer: "advisory_send_alert quiet_env tk a b d hs t = None"
  by (simp add: advisory_send_alert_def quiet_env_def)

text \<open>
  The theorem without a client (the decision at 1.5 percent against threshold 1 is
  send, the result the deterministic one) and with a client that answers
  \<^verbatim>\<open>{"send_alert": false}\<close> (the decision is its answer).
\<close>

theorem advisory_decision_witness:
  "fst (agent_summarize_and_decide quiet_env ''AAPL'' 100 (203/2) (3/2) [] 1)
   \<and> agent_summarize_and_decide quiet_env ''AAPL'' 100 (203/2) (3/2) [] 1
       = (True, format_plain_push quiet_env ''AAPL'' 100 (203/2) (3/2) [])
   \<and> fst (agent_summarize_and_decide (refusing quiet_env) ''AAPL'' 100 (203/2) (3/2) [] 1)
       = truthy (JBool False)"
  using advisory_decision [of quiet_env "''AAPL''" 100 "203/2" "3/2" "[]" 1 JNull]
    advisory_decision [of "refusing quiet_env" "''AAPL''" 100 "203/2" "3/2" "[]" 1 "JBool False"]
  by (simp add: quiet_answer refusing_answer) (simp add: quiet_env_def)

text \<open>
  The claim as stated fails: at 1.5 percent against threshold 1 the magnitude test
  holds, and a client that answers \<^verbatim>\<open>{"send_alert": false}\<close> turns the decision
  into do not send.
\<close>

theorem advisory_decision_counterexample:
  "\<bar>3/2\<bar> \<ge> (1::real)
   \<and> \<not> fst (agent_summarize_and_decide (refusing quiet_env) ''AAPL'' 100 (203/2) (3/2) [] 1)"
  by (simp add: agent_summarize_and_decide_def refusing_def quiet_env_def refusal_text_def
      or_else_def Let_def)

section \<open>The URL resolver\<close>

lemma ensure_https_idem: "ensure_https (ensure_https u) = ensure_https u"
  by (simp add: ensure_https_def)

lemma ensure_https_cases:
  "(u = [] \<longrightarrow> ensure_https u = [])
   \<and> (prefix ''http://'' u \<or> prefix ''https://'' u \<longrightarrow> ensure_https u = u)
   \<and> (u \<noteq> [] \<and> \<not> prefix ''http://'' u \<and> \<not> prefix ''https://'' u
      \<longrightarrow> ensure_https u = ''https://'' @ lstrip_slash u)"
  by (auto simp: ensure_https_def)

text \<open>
  The one call that is not inside a \<^verbatim>\<open>try\<close>: when \<^verbatim>\<open>urlparse\<close> raises on the
  scheme-normalized input, step 1 swallows the exception and step 2 lets it out.
\<close>

lemma extract_original_url_raises:
  assumes "urlparse lib (ensure_https url) = Inl x"
  shows "extract_original_url lib url rr = Inl x"
  using assms
  by (simp add: extract_original_url_def direct_redirect_def consent_continue_def Let_def)

lemma extract_original_url_raises_example:
  "extract_original_url (table_lib []) ''https://['' True = Inl ValueError"
  by (rule extract_original_url_raises)
     (simp add: table_lib_def simple_urlparse_def ensure_https_def Let_def)

lemma consent_continue_parsed:
  assumes "urlparse lib u = Inr p"
  shows "\<exists>c. consent_continue lib u = Inr c"
  using assms by (simp add: consent_continue_def Let_def split: option.splits list.splits)

text \<open>
  Claim C5, as amended. Whenever \<^verbatim>\<open>urlparse\<close> does not raise on the
  scheme-normalized input, the resolver returns a string, for every behaviour of the
  HTTP layer and with or without redirect resolution. When every strategy fails (no
  url parameter, no consent continue, and the HTTP block yields nothing, as it does
  when the request raises) it returns the scheme-normalized input with the rss path
  rewritten and the tracking parameters stripped. Scheme normalization leaves the
  empty string empty and an http or https URL as it is, and puts https:// before
  anything else, leading slashes dropped.
\<close>

theorem resolver_returns:
  assumes "urlparse lib (ensure_https url) = Inr p"
  shows "(\<exists>s. extract_original_url lib url rr = Inr s)
       \<and> (direct_redirect lib (ensure_https url) = None
          \<and> (consent_continue lib (ensure_https url) = Inr None
               \<or> consent_continue lib (ensure_https url) = Inr (Some []))
          \<and> follow_redirects lib (rewrite_rss lib (ensure_https url)) = None
          \<longrightarrow> extract_original_url lib url True
                = Inr (clean_tracking_params lib (rewrite_rss lib (ensure_https url))))
       \<and> (requests_get lib (rewrite_rss lib (ensure_https url)) = Inl x
          \<longrightarrow> follow_redirects lib (rewrite_rss lib (ensure_https url)) = None)
       \<and> (url = [] \<longrightarrow> ensure_https url = [])
       \<and> (prefix ''http://'' url \<or> prefix ''https://'' url \<longrightarrow> ensure_https url = url)
       \<and> (url \<noteq> [] \<and> \<not> prefix ''http://'' url \<and> \<not> prefix ''https://'' url
          \<longrightarrow> ensure_https url = ''https://'' @ lstrip_slash url)"
proof -
  from consent_continue_parsed [OF assms] obtain c where
    c: "consent_continue lib (ensure_https url) = Inr c" by blast
  have total: "\<exists>s. extract_original_url lib url rr = Inr s"
    by (simp add: extract_original_url_def Let_def c split: option.splits)
  have fails: "extract_original_url lib url True
                = Inr (clean_tracking_params lib (rewrite_rss lib (ensure_https url)))"
    if "direct_redirect lib (ensure_https url) = None"
      "consent_continue lib (ensure_https url) = Inr None
         \<or> consent_continue lib (ensure_https url) = Inr (Some [])"
      "follow_redirects lib (rewrite_rss lib (ensure_https url)) = None"
    using that by (auto simp: extract_original_url_def Let_def)
  have down: "follow_redirects lib (rewrite_rss lib (ensure_https url)) = None"
    if "requests_get lib (rewrite_rss lib (ensure_https url)) = Inl x"
    using that by (simp add: follow_redirects_def)
  from total fails down ensure_https_cases [of url] show ?thesis by blast
qed

lemmas table_simps = table_lib_def simple_urlparse_def simple_urlunparse_def ensure_https_def
  lstrip_slash_def direct_redirect_def consent_continue_def rewrite_rss_def
  follow_redirects_def clean_tracking_params_def extract_original_url_def lands_on_def
  hop_target_def or_else_def Let_def steady_lib_def hopping_lib_def feed_lib_def

text \<open>
  The theorem with the HTTP layer down, at the input \<^verbatim>\<open>//example.com/a?id=7\<close>:
  the result is the input with https:// put before it.
\<close>

theorem resolver_returns_witness:
  "extract_original_url (table_lib []) ''//example.com/a?id=7'' True
     = Inr ''https://example.com/a?id=7''
   \<and> ensure_https ''//example.com/a?id=7'' = ''https://example.com/a?id=7''"
proof -
  let ?u = "''//example.com/a?id=7''"
  have n: "ensure_https ?u = ''https://example.com/a?id=7''"
    by (simp add: ensure_https_def lstrip_slash_def)
  have p: "urlparse (table_lib []) (ensure_https ?u)
            = Inr \<lparr>u_scheme = ''https'', u_netloc = ''example.com'', u_path = ''/a'',
                   u_params = [], u_query = ''id=7'', u_fragment = []\<rparr>"
    unfolding n by (simp add: table_lib_def simple_urlparse_def Let_def)
  have s: "direct_redirect (table_lib []) (ensure_https ?u) = None"
    "consent_continue (table_lib []) (ensure_https ?u) = Inr None"
    "rewrite_rss (table_lib []) (ensure_https ?u) = ensure_https ?u"
    "requests_get (table_lib []) (ensure_https ?u) = Inl RequestException"
    "clean_tracking_params (table_lib []) (ensure_https ?u) = ensure_https ?u"
    unfolding n by (simp_all add: table_simps)
  from resolver_returns [OF p, of True RequestException] s n show ?thesis by simp
qed

text \<open>
  The claim as stated fails at the empty string, which scheme normalization leaves
  empty: with the HTTP layer down the resolver returns the empty string, which carries
  no scheme. An http URL keeps its scheme, and an rss article link comes back with the
  rewritten path, not as the input.
\<close>

theorem resolver_returns_counterexample:
  "extract_original_url (table_lib []) [] True = Inr []
   \<and> \<not> prefix ''https://'' []
   \<and> extract_original_url (table_lib []) ''http://example.com/a'' True = Inr ''http://example.com/a''
   \<and> extract_original_url (table_lib []) ''news.google.com/rss/articles/CBMi'' True
       = Inr ''https://news.google.com/articles/CBMi''"
  by (simp add: table_simps)

text \<open>
  Claim C6, as amended. For a URL whose host is off the Google news and consent hosts,
  resolving without redirect resolution gives the scheme-normalized URL, and resolving
  that again gives it back. With redirect resolution, resolving the result of a
  resolution gives the same URL whenever the HTTP layer is a fixed point at that
  result.
\<close>

theorem resolver_idempotent:
  "(urlparse lib (ensure_https x) = Inr p \<and> \<not> contains ''news.google.'' (u_netloc p)
      \<and> \<not> contains ''consent.google.'' (u_netloc p)
    \<longrightarrow> extract_original_url lib x False = Inr (ensure_https x)
        \<and> extract_original_url lib (ensure_https x) False = Inr (ensure_https x))
   \<and> (extract_original_url lib x True = Inr y \<and> http_stable lib y
    \<longrightarrow> extract_original_url lib y True = Inr y)"
proof -
  have off: "extract_original_url lib u rr = (if rr
        then (case follow_redirects lib (ensure_https u) of
                Some r \<Rightarrow> Inr r
              | None \<Rightarrow> Inr (clean_tracking_params lib (ensure_https u)))
        else Inr (ensure_https u))"
    if "urlparse lib (ensure_https u) = Inr q" "\<not> contains ''news.google.'' (u_netloc q)"
      "\<not> contains ''consent.google.'' (u_netloc q)" for u q rr
    using that
    by (simp add: extract_original_url_def direct_redirect_def consent_continue_def
        rewrite_rss_def Let_def)
  have a: "extract_original_url lib x False = Inr (ensure_https x)
        \<and> extract_original_url lib (ensure_https x) False = Inr (ensure_https x)"
    if "urlparse lib (ensure_https x) = Inr p" "\<not> contains ''news.google.'' (u_netloc p)"
      "\<not> contains ''consent.google.'' (u_netloc p)"
    using off [of x p False] off [of "ensure_https x" p False] that
    by (simp add: ensure_https_idem)
  have b: "extract_original_url lib y True = Inr y" if "http_stable lib y"
  proof -
    from that obtain q r where
      y: "y \<noteq> []" "ensure_https y = y" "\<not> contains ''google.com'' y" "\<not> contains ''google.'' y"
      and q: "urlparse lib y = Inr q" "\<not> contains ''news.google.'' (u_netloc q)"
        "\<not> contains ''consent.google.'' (u_netloc q)"
      and r: "requests_get lib y = Inr r" "first_consent lib (r_history r) = Inr None" "r_url r = y"
      unfolding http_stable_def by blast
    have "follow_redirects lib y = Some y"
      using y r by (simp add: follow_redirects_def)
    with off [of y q True] q y show ?thesis by simp
  qed
  from a b show ?thesis by blast
qed

text \<open>
  The theorem at \<^verbatim>\<open>example.com/a\<close> without redirect resolution, and with an HTTP layer
  where \<^verbatim>\<open>https://example.com/a\<close> answers for itself.
\<close>

theorem resolver_idempotent_witness:
  "extract_original_url (table_lib []) ''example.com/a'' False = Inr ''https://example.com/a''
   \<and> extract_original_url (table_lib []) ''https://example.com/a'' False
       = Inr ''https://example.com/a''
   \<and> extract_original_url steady_lib ''https://example.com/a'' True
       = Inr ''https://example.com/a''"
proof -
  let ?p = "\<lparr>u_scheme = ''https'', u_netloc = ''example.com'', u_path = ''/a'',
             u_params = [], u_query = [], u_fragment = []\<rparr>"
  have n: "ensure_https ''example.com/a'' = ''https://example.com/a''"
    by (simp add: ensure_https_def lstrip_slash_def)
  have p: "urlparse (table_lib []) (ensure_https ''example.com/a'') = Inr ?p"
    unfolding n by (simp add: table_lib_def simple_urlparse_def Let_def)
  have h: "\<not> contains ''news.google.'' (u_netloc ?p)" "\<not> contains ''consent.google.'' (u_netloc ?p)"
    by simp_all
  have st: "http_stable steady_lib ''https://example.com/a''"
    by (simp add: http_stable_def table_simps)
  have r: "extract_original_url steady_lib ''https://example.com/a'' True = Inr ''https://example.com/a''"
    by (simp add: table_simps)
  from resolver_idempotent [of "table_lib []" "''example.com/a''" ?p "''https://example.com/a''"]
    p h n
  have w1: "extract_original_url (table_lib []) ''example.com/a'' False = Inr ''https://example.com/a''
     \<and> extract_original_url (table_lib []) ''https://example.com/a'' False
         = Inr ''https://example.com/a''"
    by simp
  from resolver_idempotent [of steady_lib "''https://example.com/a''" ?p "''https://example.com/a''"] st r
  have w2: "extract_original_url steady_lib ''https://example.com/a'' True = Inr ''https://example.com/a''"
    by simp
  from w1 w2 show ?thesis by simp
qed

text \<open>
  The claim as stated fails for an HTTP layer that is a fixed function of the URL:
  \<^verbatim>\<open>https://a.example/1\<close> ends at \<^verbatim>\<open>https://a.example/2\<close>, and a request for that
  URL ends at \<^verbatim>\<open>https://a.example/3\<close>. No host here is a Google host; resolving
  once gives the second URL, resolving the result gives the third. The same happens
  with a short link (off the Google hosts) that passes a consent page: the first
  resolution returns the \<^verbatim>\<open>continue\<close> URL of the consent page, the second follows
  that URL's own redirect to the www host.
\<close>

theorem resolver_idempotent_counterexample:
  "extract_original_url hopping_lib ''https://a.example/1'' True = Inr ''https://a.example/2''
   \<and> extract_original_url hopping_lib ''https://a.example/2'' True = Inr ''https://a.example/3''
   \<and> ''https://a.example/3'' \<noteq> ''https://a.example/2''
   \<and> \<not> contains ''google.'' ''https://a.example/1''
   \<and> extract_original_url consent_lib ''https://short.example/1'' True
       = Inr ''https://paper.example/story''
   \<and> extract_original_url consent_lib ''https://paper.example/story'' True
       = Inr ''https://www.paper.example/story''
   \<and> \<not> contains ''google.'' ''https://short.example/1''"
  by (simp add: table_simps consent_lib_def consent_page_def)

section \<open>The headline block\<close>

lemma link_line_inject [simp]: "link_line a = link_line b \<longleftrightarrow> a = b"
  by (simp add: link_line_def)

lemma bullet_not_link [simp]: "bullet_line title orig src \<noteq> link_line c"
  by (simp add: bullet_line_def link_line_def bullet_def)

lemma headline_lines_step:
  "headline_lines lib (it # items) seen =
     (if usable lib it \<and> canonical lib it \<notin> seen
      then entry_of lib it (canonical lib it)
           @ headline_lines lib items (insert (canonical lib it) seen)
      else headline_lines lib items seen)"
  by (simp add: usable_def canonical_def entry_of_def Let_def)

lemma count_entry_of [simp]:
  "count_list (entry_of lib it a) (link_line c) = (if a = c then 1 else 0)"
  by (simp add: entry_of_def)

lemma count_link_lines:
  "count_list (headline_lines lib items seen) (link_line c) =
     (if c \<notin> seen \<and> (\<exists>it \<in> set items. usable lib it \<and> canonical lib it = c) then 1 else 0)"
proof (induction items arbitrary: seen)
  case Nil
  then show ?case by simp
next
  case (Cons it items)
  show ?case
    unfolding headline_lines_step
    by (auto simp: Cons.IH)
qed

text \<open>
  The entry filed under a URL is the entry of the first item that the loop does not
  skip and that resolves to the URL.
\<close>

lemma first_entry_kept:
  assumes "find (\<lambda>it. usable lib it \<and> canonical lib it = c) items = Some it0" and "c \<notin> seen"
  shows "sublist (entry_of lib it0 c) (headline_lines lib items seen)"
  using assms
proof (induction items arbitrary: seen)
  case Nil
  then show ?case by simp
next
  case (Cons it items)
  show ?case
  proof (cases "usable lib it \<and> canonical lib it = c")
    case True
    with Cons.prems show ?thesis
      unfolding headline_lines_step by (simp add: sublist_append_rightI)
  next
    case False
    with Cons.prems have f: "find (\<lambda>it. usable lib it \<and> canonical lib it = c) items = Some it0"
      by simp
    have "c \<notin> insert (canonical lib it) seen" if "usable lib it"
      using False that Cons.prems(2) by auto
    with Cons.IH [OF f] Cons.prems(2) show ?thesis
      unfolding headline_lines_step by (auto simp: sublist_append)
  qed
qed

text \<open>
  Claim C7. The items that reach \<^verbatim>\<open>_format_headlines\<close> come from
  \<^verbatim>\<open>fetch_headlines\<close>, which emits an item only with a non-blank title and a
  non-blank link (news.py, lines 261 and 306); the loop does not skip such an item
  (\<open>usable\<close>). For every list holding two of them whose raw links differ and resolve
  to the same canonical URL, the lines built hold exactly one entry filed under that
  URL (first conjunct). For every list whatever, the number of entries filed under a
  URL is one when some item that the loop does not skip resolves to it, and zero
  otherwise (second conjunct); the entry is the one of the first such item, its two
  lines one after the other, so that the later ones are dropped (third conjunct). The
  block is these lines joined by newlines.
\<close>

theorem headline_dedup:
  "(a \<in> set items \<and> b \<in> set items \<and> usable lib a \<and> usable lib b
      \<and> item_url lib a \<noteq> item_url lib b \<and> canonical lib a = c \<and> canonical lib b = c
    \<longrightarrow> count_list (headline_lines lib items {}) (link_line c) = 1)
   \<and> count_list (headline_lines lib items {}) (link_line c)
       = (if \<exists>it \<in> set items. usable lib it \<and> canonical lib it = c then 1 else 0)
   \<and> (find (\<lambda>it. usable lib it \<and> canonical lib it = c) items = Some it0
      \<longrightarrow> sublist (entry_of lib it0 c) (headline_lines lib items {}))
   \<and> format_headlines lib items = join_lines (headline_lines lib items {})"
proof -
  have n: "count_list (headline_lines lib items {}) (link_line c)
       = (if \<exists>it \<in> set items. usable lib it \<and> canonical lib it = c then 1 else 0)"
    using count_link_lines [of lib items "{}" c] by simp
  have two: "count_list (headline_lines lib items {}) (link_line c) = 1"
    if "a \<in> set items" "usable lib a" "canonical lib a = c"
    using n that by auto
  have first: "sublist (entry_of lib it0 c) (headline_lines lib items {})"
    if "find (\<lambda>it. usable lib it \<and> canonical lib it = c) items = Some it0"
    using first_entry_kept [OF that] by simp
  have block: "format_headlines lib items = join_lines (headline_lines lib items {})"
    by (simp add: format_headlines_def)
  from n two first block show ?thesis by blast
qed

lemmas strip_simps = ascii_strip_def is_space_def item_url_def usable_def canonical_def
  resolve_or_raw_def plain_item_def or_else_def entry_of_def

text \<open>
  The theorem at two items with the titles First and Second whose links
  \<^verbatim>\<open>https://feed.example/1\<close> and \<^verbatim>\<open>https://feed.example/2\<close> both end at
  \<^verbatim>\<open>https://paper.example/story\<close>: one entry, that of First.
\<close>

theorem headline_dedup_witness:
  "item_url feed_lib (plain_item ''First'' ''https://feed.example/1'')
     \<noteq> item_url feed_lib (plain_item ''Second'' ''https://feed.example/2'')
   \<and> canonical feed_lib (plain_item ''First'' ''https://feed.example/1'')
       = ''https://paper.example/story''
   \<and> canonical feed_lib (plain_item ''Second'' ''https://feed.example/2'')
       = ''https://paper.example/story''
   \<and> count_list
        (headline_lines feed_lib
          [plain_item ''First'' ''https://feed.example/1'',
           plain_item ''Second'' ''https://feed.example/2''] {})
        (link_line ''https://paper.example/story'') = 1
   \<and> sublist
        [bullet_line ''First'' ''https://paper.example/story'' [],
         link_line ''https://paper.example/story'']
        (headline_lines feed_lib
          [plain_item ''First'' ''https://feed.example/1'',
           plain_item ''Second'' ''https://feed.example/2''] {})
   \<and> headline_lines feed_lib
       [plain_item ''First'' ''https://feed.example/1'',
        plain_item ''Second'' ''https://feed.example/2''] {}
       = [bullet_line ''First'' ''https://paper.example/story'' [],
          link_line ''https://paper.example/story'']"
proof -
  let ?a = "plain_item ''First'' ''https://feed.example/1''"
  let ?b = "plain_item ''Second'' ''https://feed.example/2''"
  let ?c = "''https://paper.example/story''"
  have u: "usable feed_lib ?a" "usable feed_lib ?b"
    by (simp_all add: strip_simps table_simps)
  have r: "item_url feed_lib ?a \<noteq> item_url feed_lib ?b"
    by (simp add: strip_simps table_simps)
  have c: "canonical feed_lib ?a = ?c" "canonical feed_lib ?b = ?c"
    by (simp_all add: strip_simps table_simps)
  have t: "entry_of feed_lib ?a ?c = [bullet_line ''First'' ?c [], link_line ?c]"
    by (simp add: strip_simps table_simps)
  have l: "headline_lines feed_lib [?a, ?b] {} = [bullet_line ''First'' ?c [], link_line ?c]"
    by (simp add: headline_lines_step u c t del: headline_lines.simps(2))
  from headline_dedup [of ?a "[?a, ?b]" ?b feed_lib ?c ?a] u r c
  have "count_list (headline_lines feed_lib [?a, ?b] {}) (link_line ?c) = 1"
    "sublist (entry_of feed_lib ?a ?c) (headline_lines feed_lib [?a, ?b] {})"
    by simp_all
  with r c l t show ?thesis by simp
qed

end
